theory Spec2Isabelle
  imports Complex_Main "HOL-Library.Sublist" "HOL-Library.Char_ord" "HOL-Library.List_Lexorder"
    "HOL-Library.AList"
begin

section \<open>Go values held in an open payload\<close>

text \<open>
  An event payload is a Go \<^verbatim>\<open>map[string]any\<close>. The dynamic values that can sit behind
  \<^verbatim>\<open>any\<close> in such a payload are the ones \<^verbatim>\<open>encoding/json\<close> produces: nil, bool, float64,
  string, \<^verbatim>\<open>[]any\<close> and \<^verbatim>\<open>map[string]any\<close>. A nil map and an empty map read alike, so both
  are the empty map here.
\<close>

datatype any =
    AnyNil
  | AnyBool bool
  | AnyFloat64 rat
  | AnyString string
  | AnySlice "any list"
  | AnyMap "string \<Rightarrow> any option"

text \<open>Reading a key of a Go map: the zero value of \<^verbatim>\<open>any\<close> (nil) when the key is missing.\<close>

definition index :: "(string \<rightharpoonup> any) \<Rightarrow> string \<Rightarrow> any" where
  "index m k = (case m k of None \<Rightarrow> AnyNil | Some v \<Rightarrow> v)"

text \<open>
  The two-result type assertions \<^verbatim>\<open>v, ok := x.(T)\<close>: the zero value of \<^verbatim>\<open>T\<close> and false when
  the dynamic type differs. They never panic.
\<close>

definition assertString :: "any \<Rightarrow> string \<times> bool" where
  "assertString x = (case x of AnyString s \<Rightarrow> (s, True) | _ \<Rightarrow> ('''', False))"

definition assertBool :: "any \<Rightarrow> bool \<times> bool" where
  "assertBool x = (case x of AnyBool b \<Rightarrow> (b, True) | _ \<Rightarrow> (False, False))"

definition assertMap :: "any \<Rightarrow> (string \<rightharpoonup> any) \<times> bool" where
  "assertMap x = (case x of AnyMap m \<Rightarrow> (m, True) | _ \<Rightarrow> (Map.empty, False))"

definition assertSlice :: "any \<Rightarrow> any list \<times> bool" where
  "assertSlice x = (case x of AnySlice xs \<Rightarrow> (xs, True) | _ \<Rightarrow> ([], False))"

text \<open>
  Comparing two interface values with \<^verbatim>\<open>==\<close> is the one operation of the accessors that can
  panic in Go: it does so when both operands have the same dynamic type and that type is
  not comparable (a slice or a map). Otherwise it is equality of type and value.
\<close>

datatype panic = UncomparableType

fun go_eq :: "any \<Rightarrow> any \<Rightarrow> panic + bool" where
  "go_eq (AnySlice xs) (AnySlice ys) = Inl UncomparableType"
| "go_eq (AnyMap m) (AnyMap n) = Inl UncomparableType"
| "go_eq x y = Inr (x = y)"

text \<open>\<^verbatim>\<open>strings.Join(elems, sep)\<close>.\<close>

fun Join :: "string list \<Rightarrow> string \<Rightarrow> string" where
  "Join [] sep = []"
| "Join [x] sep = x"
| "Join (x # y # ys) sep = x @ sep @ Join (y # ys) sep"

section \<open>The event model\<close>

record Event =
  Type :: string
  Data :: "string \<rightharpoonup> any"

definition SessionID :: "Event \<Rightarrow> string" where
  "SessionID e = fst (assertString (index (Data e) ''session_id''))"

definition IsResult :: "Event \<Rightarrow> bool" where
  "IsResult e = (Type e = ''result'')"

definition IsError :: "Event \<Rightarrow> bool" where
  "IsError e =
     (if \<not> IsResult e then False
      else fst (assertBool (index (Data e) ''is_error'')))"

definition ResultText :: "Event \<Rightarrow> string" where
  "ResultText e =
     (if \<not> IsResult e then ''''
      else fst (assertString (index (Data e) ''result'')))"

text \<open>
  The loop of \<^verbatim>\<open>TextContent\<close> over the content items, with the slice \<^verbatim>\<open>texts\<close> it appends to.
\<close>

fun textLoop :: "any list \<Rightarrow> string list \<Rightarrow> panic + string list" where
  "textLoop [] texts = Inr texts"
| "textLoop (item # content) texts =
     (let block = fst (assertMap item) in
      case go_eq (index block ''type'') (AnyString ''text'') of
        Inl p \<Rightarrow> Inl p
      | Inr True \<Rightarrow>
          (case assertString (index block ''text'') of
             (t, True) \<Rightarrow> textLoop content (texts @ [t])
           | (t, False) \<Rightarrow> textLoop content texts)
      | Inr False \<Rightarrow> textLoop content texts)"

definition TextContent :: "Event \<Rightarrow> panic + string" where
  "TextContent e =
     (if Type e \<noteq> ''assistant'' then Inr ''''
      else
        let msg = fst (assertMap (index (Data e) ''message''));
            content = fst (assertSlice (index msg ''content''))
        in (case textLoop content [] of
              Inl p \<Rightarrow> Inl p
            | Inr texts \<Rightarrow> Inr (Join texts ''\<newline>'')))"

text \<open>The loop of \<^verbatim>\<open>ToolUses\<close>, with the slice \<^verbatim>\<open>tools\<close> it appends to.\<close>

fun toolLoop :: "any list \<Rightarrow> (string \<rightharpoonup> any) list \<Rightarrow> panic + (string \<rightharpoonup> any) list" where
  "toolLoop [] tools = Inr tools"
| "toolLoop (item # content) tools =
     (let block = fst (assertMap item) in
      case go_eq (index block ''type'') (AnyString ''tool_use'') of
        Inl p \<Rightarrow> Inl p
      | Inr True \<Rightarrow> toolLoop content (tools @ [block])
      | Inr False \<Rightarrow> toolLoop content tools)"

definition ToolUses :: "Event \<Rightarrow> panic + (string \<rightharpoonup> any) list" where
  "ToolUses e =
     (if Type e \<noteq> ''assistant'' then Inr []
      else
        let msg = fst (assertMap (index (Data e) ''message''));
            content = fst (assertSlice (index msg ''content''))
        in toolLoop content [])"

subsection \<open>What the accessors are said to return\<close>

text \<open>
  The content blocks of an event: the sequence under \<^verbatim>\<open>message.content\<close>, empty when the
  message is missing or not a mapping, or the content is missing or not a sequence.
\<close>

definition content_blocks :: "Event \<Rightarrow> any list" where
  "content_blocks e =
     (case Data e ''message'' of
        Some (AnyMap msg) \<Rightarrow> (case msg ''content'' of Some (AnySlice c) \<Rightarrow> c | _ \<Rightarrow> [])
      | _ \<Rightarrow> [])"

text \<open>The text field of a block of type \<^verbatim>\<open>text\<close>; nothing for any other item.\<close>

definition text_field :: "any \<Rightarrow> string option" where
  "text_field item =
     (case item of
        AnyMap b \<Rightarrow>
          (if b ''type'' = Some (AnyString ''text'')
           then (case b ''text'' of Some (AnyString t) \<Rightarrow> Some t | _ \<Rightarrow> None)
           else None)
      | _ \<Rightarrow> None)"

definition text_fields :: "Event \<Rightarrow> string list" where
  "text_fields e = List.map_filter text_field (content_blocks e)"

text \<open>A block of type \<^verbatim>\<open>tool_use\<close>, as the mapping it is; nothing for any other item.\<close>

definition tool_block :: "any \<Rightarrow> (string \<rightharpoonup> any) option" where
  "tool_block item =
     (case item of
        AnyMap b \<Rightarrow> (if b ''type'' = Some (AnyString ''tool_use'') then Some b else None)
      | _ \<Rightarrow> None)"

text \<open>An assistant event whose \<^verbatim>\<open>message.content\<close> is the given sequence.\<close>

definition assistant_event :: "any list \<Rightarrow> Event" where
  "assistant_event content =
     \<lparr>Type = ''assistant'',
      Data = [''message'' \<mapsto> AnyMap [''content'' \<mapsto> AnySlice content]]\<rparr>"

section \<open>The Claude adapter\<close>

text \<open>
  Modelled from the spec: the package \<^verbatim>\<open>config\<close> with the declaration of \<^verbatim>\<open>Config\<close> is missing
  from the sources. The agent configuration has the command name, the argument list,
  the tool-allow list and the unsafe-skip-permissions flag; the fields are named as
  \<^verbatim>\<open>run\<close> and \<^verbatim>\<open>NewRunner\<close> read them, and so are the two debug fields that \<^verbatim>\<open>run\<close> reads.
\<close>

record AgentConfig =
  Command :: string
  Args :: "string list"
  AllowedTools :: "string list"
  DangerouslySkipPermissions :: bool

record DebugConfig =
  Enabled :: bool
  LogDir :: string

record Config =
  Agent :: AgentConfig
  Debug :: DebugConfig

text \<open>
  The options of one invocation. The fields \<^verbatim>\<open>SessionID\<close> and \<^verbatim>\<open>Command\<close> of \<^verbatim>\<open>RunOptions\<close>
  carry the suffix \<open>_opts\<close>, the names being taken by the event accessor and the agent
  command.
\<close>

record RunOptions =
  Prompt :: string
  SystemPrompt :: string
  Config :: Config
  SessionID_opts :: string
  CWD :: string
  Command_opts :: string

text \<open>The slice \<^verbatim>\<open>cmd\<close> that \<^verbatim>\<open>run\<close> builds before it launches the process.\<close>

definition run_cmd :: "RunOptions \<Rightarrow> string list" where
  "run_cmd opts =
     (let cfg = Config opts;
          cmd0 = [Command (Agent cfg), ''-p'', Prompt opts];
          cmd1 = (if SystemPrompt opts \<noteq> ''''
                  then cmd0 @ [''--system-prompt'', SystemPrompt opts] else cmd0);
          cmd2 = cmd1 @ Args (Agent cfg);
          cmd3 = (if length (AllowedTools (Agent cfg)) > 0
                  then cmd2 @ [''--allowedTools'', Join (AllowedTools (Agent cfg)) '','']
                  else cmd2);
          cmd4 = (if DangerouslySkipPermissions (Agent cfg)
                  then cmd3 @ [''--dangerously-skip-permissions''] else cmd3);
          cmd5 = (if SessionID_opts opts \<noteq> ''''
                  then cmd4 @ [''--resume'', SessionID_opts opts] else cmd4)
      in cmd5)"

text \<open>
  What the operating system answers during one invocation: the result of \<^verbatim>\<open>os.Getwd\<close>, the
  errors (if any) of \<^verbatim>\<open>StdoutPipe\<close> and \<^verbatim>\<open>Start\<close>, whether the debug log file could be opened,
  the lines that successive calls of \<^verbatim>\<open>scanner.Scan\<close> deliver, how the scanning ends, and how
  \<^verbatim>\<open>Wait\<close> ends. \<^verbatim>\<open>Scan\<close> finally returns false at the end of the input, on a line longer than
  the 1 MiB buffer or on a read error; or it never does, when the process goes on writing
  or stays silent with its output open, and \<open>scanned\<close> is then the lines delivered so far.
  \<^verbatim>\<open>Wait\<close> returns nil or an error (a nonzero exit status among them), or it does not
  return, when the process does not exit. An error is the text of its message.
\<close>

type_synonym error = string

datatype scan_stop = EOF | ErrTooLong | ReadError | NoStop

datatype wait_result = Waited "error option" | NoReturn

record World =
  getwd :: "error + string"
  stdout_pipe :: "error option"
  start :: "error option"
  debug_log_opened :: bool
  scanned :: "string list"
  scan_stop :: scan_stop
  wait :: wait_result

text \<open>
  \<^verbatim>\<open>json.Unmarshal([]byte(line), &data)\<close> with \<^verbatim>\<open>data\<close> a fresh \<^verbatim>\<open>map[string]any\<close> is the
  standard library's: it is a parameter \<open>unmarshal\<close>, which is \<open>None\<close> where the call returns
  an error and the decoded map otherwise. (The library reports no error for the JSON
  text \<^verbatim>\<open>null\<close> and leaves the map nil; such a line counts as decoded.)
\<close>

type_synonym unmarshal = "string \<Rightarrow> (string \<rightharpoonup> any) option"

text \<open>
  The scanning loop of \<^verbatim>\<open>run\<close>. Its state is the events sent on the channel so far and the
  lines written to the debug log so far; \<open>dbg\<close> says that a debug log is open.
\<close>

fun scanLoop :: "unmarshal \<Rightarrow> bool \<Rightarrow> string list \<Rightarrow> Event list \<times> string list
                   \<Rightarrow> Event list \<times> string list" where
  "scanLoop um dbg [] st = st"
| "scanLoop um dbg (line # rest) (events, dlog) =
     (if line = '''' then scanLoop um dbg rest (events, dlog)
      else
        let dlog' = (if dbg then dlog @ [line] else dlog) in
        case um line of
          None \<Rightarrow> scanLoop um dbg rest (events, dlog')
        | Some data \<Rightarrow>
            let eventType = fst (assertString (index data ''type''))
            in scanLoop um dbg rest (events @ [\<lparr>Type = eventType, Data = data\<rparr>], dlog'))"

text \<open>
  What one call of \<^verbatim>\<open>run\<close> does: the command and directory of the process it started (if
  it got that far), the events it sent, the lines it logged, whether it returned, and
  the error it returned (nil is \<open>None\<close>). The reason why the scanning stopped is not read:
  the loop ends and \<^verbatim>\<open>run\<close> goes on to \<^verbatim>\<open>Wait\<close>.
\<close>

record RunResult =
  launched :: "(string list \<times> string) option"
  sent :: "Event list"
  logged :: "string list"
  returned :: bool
  err :: "error option"

definition run :: "unmarshal \<Rightarrow> RunOptions \<Rightarrow> World \<Rightarrow> RunResult" where
  "run um opts w =
     (let cfg = Config opts;
          cmd = run_cmd opts
      in
      case (if CWD opts = '''' then getwd w else Inr (CWD opts)) of
        Inl e \<Rightarrow>
          \<lparr>launched = None, sent = [], logged = [], returned = True,
           err = Some (''getting working directory: '' @ e)\<rparr>
      | Inr cwd \<Rightarrow>
          (case stdout_pipe w of
             Some e \<Rightarrow>
               \<lparr>launched = None, sent = [], logged = [], returned = True,
                err = Some (''creating stdout pipe: '' @ e)\<rparr>
           | None \<Rightarrow>
               (case start w of
                  Some e \<Rightarrow>
                    \<lparr>launched = None, sent = [], logged = [], returned = True,
                     err = Some (''starting claude process: '' @ e)\<rparr>
                | None \<Rightarrow>
                    let dbg = (Enabled (Debug cfg) \<and> debug_log_opened w);
                        (events, dlog) = scanLoop um dbg (scanned w) ([], [])
                    in
                    if scan_stop w = NoStop
                    then \<lparr>launched = Some (cmd, cwd), sent = events, logged = dlog,
                          returned = False, err = None\<rparr>
                    else
                      (case wait w of
                         NoReturn \<Rightarrow>
                           \<lparr>launched = Some (cmd, cwd), sent = events, logged = dlog,
                            returned = False, err = None\<rparr>
                       | Waited (Some e) \<Rightarrow>
                           \<lparr>launched = Some (cmd, cwd), sent = events, logged = dlog,
                            returned = True,
                            err = Some (''claude process exited with error: '' @ e)\<rparr>
                       | Waited None \<Rightarrow>
                           \<lparr>launched = Some (cmd, cwd), sent = events, logged = dlog,
                            returned = True, err = None\<rparr>))))"

text \<open>
  \<^verbatim>\<open>Claude.Run\<close> starts one goroutine, which runs \<^verbatim>\<open>run\<close> and, when \<^verbatim>\<open>run\<close> has returned, sends
  its error (if it is not nil) on \<^verbatim>\<open>errc\<close>, closes \<^verbatim>\<open>errc\<close> and, by the deferred call, closes
  \<^verbatim>\<open>events\<close>. The model is the sequence of channel operations of that goroutine when the
  caller drains both channels.
\<close>

datatype chan_op = SendEvent Event | SendErr error | CloseErrc | CloseEvents

definition Run :: "unmarshal \<Rightarrow> RunOptions \<Rightarrow> World \<Rightarrow> chan_op list" where
  "Run um opts w =
     (let r = run um opts w in
      map SendEvent (sent r)
      @ (if returned r
         then (case err r of Some e \<Rightarrow> [SendErr e] | None \<Rightarrow> []) @ [CloseErrc, CloseEvents]
         else []))"

text \<open>The values received on the error channel, in order.\<close>

definition errc_values :: "chan_op list \<Rightarrow> error list" where
  "errc_values ops = List.map_filter (\<lambda>x. case x of SendErr e \<Rightarrow> Some e | _ \<Rightarrow> None) ops"

text \<open>
  The process is started when the working directory is known (it is asked for only when
  the options name none), the pipe is set up and \<^verbatim>\<open>Start\<close> succeeds. The call of \<^verbatim>\<open>run\<close>
  comes to an end when the process is not started, or when the scanning stops and \<^verbatim>\<open>Wait\<close>
  returns. It fails when the process is not started, or when the scanning stops and
  \<^verbatim>\<open>Wait\<close> returns an error.
\<close>

definition getwd_failed :: "RunOptions \<Rightarrow> World \<Rightarrow> bool" where
  "getwd_failed opts w = (CWD opts = '''' \<and> isl (getwd w))"

definition run_starts :: "RunOptions \<Rightarrow> World \<Rightarrow> bool" where
  "run_starts opts w = (\<not> getwd_failed opts w \<and> stdout_pipe w = None \<and> start w = None)"

definition run_ends :: "RunOptions \<Rightarrow> World \<Rightarrow> bool" where
  "run_ends opts w = (\<not> run_starts opts w \<or> (scan_stop w \<noteq> NoStop \<and> wait w \<noteq> NoReturn))"

definition run_failed :: "RunOptions \<Rightarrow> World \<Rightarrow> bool" where
  "run_failed opts w =
     (\<not> run_starts opts w \<or>
      (scan_stop w \<noteq> NoStop \<and> (case wait w of Waited (Some e) \<Rightarrow> True | _ \<Rightarrow> False)))"

text \<open>The event made from a decoded line.\<close>

definition event_of :: "(string \<rightharpoonup> any) \<Rightarrow> Event" where
  "event_of data =
     \<lparr>Type = (case data ''type'' of Some (AnyString s) \<Rightarrow> s | _ \<Rightarrow> ''''), Data = data\<rparr>"

section \<open>The runner registry\<close>

text \<open>
  The registry is the package-level \<^verbatim>\<open>map[string]func() Runner\<close>; the functions take it
  and return it. It is an association list with distinct keys in the order in which one
  \<^verbatim>\<open>range\<close> over the map happens to visit them, an order Go leaves open. A Runner is an
  interface value: the nil Runner is \<open>None\<close>, an implementation \<open>r\<close> is \<open>Some r\<close>. A
  constructor is a value of type \<^verbatim>\<open>func() Runner\<close>: the nil function is \<open>None\<close>, and a
  function may return the nil Runner. \<^verbatim>\<open>Register\<close> stores whatever it is given.
\<close>

type_synonym 'r constructor = "(unit \<Rightarrow> 'r option) option"

type_synonym 'r registry = "(string \<times> 'r constructor) list"

definition Register :: "string \<Rightarrow> 'r constructor \<Rightarrow> 'r registry \<Rightarrow> 'r registry" where
  "Register name constructor registry = AList.update name constructor registry"

text \<open>\<^verbatim>\<open>sort.Strings\<close> orders by the byte-wise lexicographic order of Go strings.\<close>

definition registeredNames :: "'r registry \<Rightarrow> string list" where
  "registeredNames registry = sort (map fst registry)"

text \<open>The verb \<^verbatim>\<open>%v\<close> on a \<^verbatim>\<open>[]string\<close>: the elements between brackets, separated by spaces.\<close>

definition fmt_v :: "string list \<Rightarrow> string" where
  "fmt_v names = ''['' @ Join names '' '' @ '']''"

text \<open>
  \<^verbatim>\<open>NewRunner\<close> returns a Runner and an error (the nil error is \<open>None\<close>), or panics when it
  calls a nil function. The verb \<^verbatim>\<open>%q\<close> on a string is \<^verbatim>\<open>strconv.Quote\<close> of the standard
  library, a parameter \<open>quote\<close>.
\<close>

datatype runtime_panic = NilFunctionCall

definition NewRunner :: "(string \<Rightarrow> string) \<Rightarrow> 'r registry \<Rightarrow> Config
                           \<Rightarrow> runtime_panic + ('r option \<times> error option)" where
  "NewRunner quote registry cfg =
     (case map_of registry (Command (Agent cfg)) of
        None \<Rightarrow>
          Inr (None,
               Some (''unsupported runner: '' @ quote (Command (Agent cfg))
                     @ '' (available: '' @ fmt_v (registeredNames registry) @ '')''))
      | Some None \<Rightarrow> Inl NilFunctionCall
      | Some (Some constructor) \<Rightarrow> Inr (constructor (), None))"

text \<open>
  \<^verbatim>\<open>strconv.Quote\<close>: the string between double quotes. An ASCII byte is written with a
  backslash before it when it is a double quote or a backslash, as it is when it is
  printable, by the short escape when it is bell, backspace, form feed, newline,
  carriage return, tab or vertical tab, and as \<^verbatim>\<open>\x\<close> with two lower-case hexadecimal
  digits when it is any other control character. The bytes from 0x80 on come in runs,
  which the library decodes as UTF-8 and renders rune by rune with its tables of
  printable runes (a printable rune as it is, any other by an escape); the ASCII bytes
  around a run have no part in that, and the rendering of a run is a parameter \<open>runes\<close>.
\<close>

definition hex_digit :: "nat \<Rightarrow> char" where
  "hex_digit n = ''0123456789abcdef'' ! (n mod 16)"

definition escape_byte :: "char \<Rightarrow> string" where
  "escape_byte c =
     (let n = (of_char c :: nat) in
      if c = CHR 0x22 \<or> c = CHR 0x5C then [CHR 0x5C, c]
      else if 32 \<le> n \<and> n < 127 then [c]
      else if n = 7 then [CHR 0x5C, CHR ''a'']
      else if n = 8 then [CHR 0x5C, CHR ''b'']
      else if n = 12 then [CHR 0x5C, CHR ''f'']
      else if n = 10 then [CHR 0x5C, CHR ''n'']
      else if n = 13 then [CHR 0x5C, CHR ''r'']
      else if n = 9 then [CHR 0x5C, CHR ''t'']
      else if n = 11 then [CHR 0x5C, CHR ''v'']
      else [CHR 0x5C, CHR ''x'', hex_digit (n div 16), hex_digit n])"

definition high_byte :: "char \<Rightarrow> bool" where
  "high_byte c = (128 \<le> (of_char c :: nat))"

text \<open>The bytes of the string in turn, with the run of high bytes read so far (\<open>pending\<close>).\<close>

fun quote_bytes :: "(string \<Rightarrow> string) \<Rightarrow> string \<Rightarrow> string \<Rightarrow> string" where
  "quote_bytes runes pending [] = (if pending = [] then [] else runes pending)"
| "quote_bytes runes pending (c # s) =
     (if high_byte c then quote_bytes runes (pending @ [c]) s
      else (if pending = [] then [] else runes pending) @ escape_byte c @ quote_bytes runes [] s)"

definition Quote :: "(string \<Rightarrow> string) \<Rightarrow> string \<Rightarrow> string" where
  "Quote runes s = [CHR 0x22] @ quote_bytes runes [] s @ [CHR 0x22]"

text \<open>A character that \<^verbatim>\<open>strconv.Quote\<close> leaves as it is, whatever the runes.\<close>

definition plain_char :: "char \<Rightarrow> bool" where
  "plain_char c =
     (32 \<le> (of_char c :: nat) \<and> (of_char c :: nat) < 127 \<and> c \<noteq> CHR 0x22 \<and> c \<noteq> CHR 0x5C)"

section \<open>The question detector\<close>

text \<open>
  The pattern \<^verbatim>\<open><!--QUESTION:([\s\S]*?)-->\<close> has a fixed opening token, a lazily matched body
  of arbitrary characters (line breaks included) and a fixed closing token.
\<close>

definition OPEN :: string where
  "OPEN = ''<!--QUESTION:''"

definition CLOSE :: string where
  "CLOSE = ''-->''"

text \<open>
  \<^verbatim>\<open>Cut s sep\<close> splits \<open>s\<close> around the first occurrence of \<open>sep\<close>: the text before it and the
  text after it, or nothing when \<open>sep\<close> does not occur.
\<close>

fun Cut :: "string \<Rightarrow> string \<Rightarrow> (string \<times> string) option" where
  "Cut [] sep = (if sep = [] then Some ([], []) else None)"
| "Cut (c # s) sep =
     (if prefix sep (c # s) then Some ([], drop (length sep) (c # s))
      else map_option (\<lambda>(before, after). (c # before, after)) (Cut s sep))"

text \<open>
  The first capture group of every match of \<^verbatim>\<open>questionPattern\<close> in the text, from left to
  right, matches not overlapping (what \<^verbatim>\<open>FindAllStringSubmatch\<close> reports). A match starts at
  the first opening token that a closing token follows and ends with the first closing
  token after it; the search goes on behind the match.
\<close>

function questionPattern_matches :: "string \<Rightarrow> string list" where
  "questionPattern_matches text =
     (case Cut text OPEN of
        None \<Rightarrow> []
      | Some (before, rest) \<Rightarrow>
          (case Cut rest CLOSE of
             None \<Rightarrow> []
           | Some (body, rest') \<Rightarrow> body # questionPattern_matches rest'))"
  by pat_completeness auto
termination
proof (relation "measure length")
  show "wf (measure length)" by simp
next
  fix s x y body rest' :: string and x2 xa
  assume a: "Cut s OPEN = Some x2" "(x, y) = x2" "Cut y CLOSE = Some xa" "(body, rest') = xa"
  have shorter: "Cut u sep = Some (b, r) \<Longrightarrow> length r + length sep \<le> length u" for u sep b r
  proof (induction u arbitrary: b)
    case Nil
    then show ?case by (simp split: if_splits)
  next
    case (Cons c u)
    show ?case
    proof (cases "prefix sep (c # u)")
      case True
      with Cons.prems show ?thesis by (auto dest: prefix_length_le)
    next
      case False
      with Cons.prems obtain b' where "Cut u sep = Some (b', r)"
        by (auto split: prod.splits)
      with Cons.IH have "length r + length sep \<le> length u" by simp
      then show ?thesis by simp
    qed
  qed
  from a have "Cut s OPEN = Some (x, y)" "Cut y CLOSE = Some (body, rest')" by simp_all
  then show "(rest', s) \<in> measure length"
    using shorter [of s OPEN x y] shorter [of y CLOSE body rest'] by (simp add: CLOSE_def)
qed

declare questionPattern_matches.simps [simp del]

text \<open>The struct \<^verbatim>\<open>Question\<close>: the question text, the header and the options.\<close>

record Question =
  Question :: string
  Header :: string
  Options :: "(string \<rightharpoonup> any) list"

text \<open>
  Modelled from the spec: the body of \<^verbatim>\<open>detectQuestions\<close> is missing from the sources (the
  plan shows the function with its body elided). An option is a mapping that has at
  least a label.
\<close>

definition option_of :: "any \<Rightarrow> (string \<rightharpoonup> any) option" where
  "option_of x =
     (case x of
        AnyMap m \<Rightarrow> (case m ''label'' of Some (AnyString l) \<Rightarrow> Some m | _ \<Rightarrow> None)
      | _ \<Rightarrow> None)"

text \<open>
  Modelled from the spec: the Question made from one element of the \<^verbatim>\<open>questions\<close> array.
  The marker format gives an element the fields \<^verbatim>\<open>question\<close>, \<^verbatim>\<open>header\<close> and \<^verbatim>\<open>options\<close>, and
  \<^verbatim>\<open>freeText\<close> as the only optional one; an element that misses a required field gives no
  Question. The struct has no field for \<^verbatim>\<open>freeText\<close>.
\<close>

definition question_of :: "any \<Rightarrow> Question option" where
  "question_of el =
     (case el of
        AnyMap q \<Rightarrow>
          (case q ''question'' of
             Some (AnyString qt) \<Rightarrow>
               (case q ''header'' of
                  Some (AnyString h) \<Rightarrow>
                    (case q ''options'' of
                       Some (AnySlice os) \<Rightarrow>
                         map_option (\<lambda>opts. \<lparr>Question = qt, Header = h, Options = opts\<rparr>)
                           (those (map option_of os))
                     | _ \<Rightarrow> None)
                | _ \<Rightarrow> None)
           | _ \<Rightarrow> None)
      | _ \<Rightarrow> None)"

text \<open>
  Modelled from the spec: the Questions that one marker occurrence contributes. The
  enclosed text is parsed as a JSON object (by the parameter \<open>um\<close>) that holds a
  \<^verbatim>\<open>questions\<close> array; when it is not valid JSON, or an element of the array misses a
  required field, the occurrence contributes no Question.
\<close>

definition span_questions :: "unmarshal \<Rightarrow> string \<Rightarrow> Question list" where
  "span_questions um body =
     (case um body of
        None \<Rightarrow> []
      | Some payload \<Rightarrow>
          (case payload ''questions'' of
             Some (AnySlice els) \<Rightarrow>
               (case those (map question_of els) of Some qs \<Rightarrow> qs | None \<Rightarrow> [])
           | _ \<Rightarrow> []))"

text \<open>
  Modelled from the spec: the loop over the marker occurrences, with the slice
  \<^verbatim>\<open>questions\<close> it appends to. Every occurrence is processed, and the results are
  concatenated in order of appearance.
\<close>

fun detectLoop :: "unmarshal \<Rightarrow> string list \<Rightarrow> Question list \<Rightarrow> Question list" where
  "detectLoop um [] questions = questions"
| "detectLoop um (body # bodies) questions =
     detectLoop um bodies (questions @ span_questions um body)"

text \<open>
  Modelled from the spec: \<^verbatim>\<open>detectQuestions\<close> scans the text for the occurrences of the
  marker, which is the pattern \<^verbatim>\<open>questionPattern\<close> of the sources, and returns the Questions
  of all of them. The JSON decoder of the standard library is the parameter \<open>um\<close>.
\<close>

definition detectQuestions :: "unmarshal \<Rightarrow> string \<Rightarrow> Question list" where
  "detectQuestions um text = detectLoop um (questionPattern_matches text) []"

subsection \<open>What the claims about the detector speak of\<close>

text \<open>
  A marker body is well formed when it is a JSON object with a \<^verbatim>\<open>questions\<close> array whose
  elements all have the required fields.
\<close>

definition well_formed :: "unmarshal \<Rightarrow> string \<Rightarrow> bool" where
  "well_formed um body =
     (case um body of
        None \<Rightarrow> False
      | Some payload \<Rightarrow>
          (case payload ''questions'' of
             Some (AnySlice els) \<Rightarrow> list_all (\<lambda>el. question_of el \<noteq> None) els
           | _ \<Rightarrow> False))"

text \<open>The question of a well-formed marker body that carries exactly one.\<close>

definition single_question :: "unmarshal \<Rightarrow> string \<Rightarrow> Question option" where
  "single_question um body =
     (case um body of
        None \<Rightarrow> None
      | Some payload \<Rightarrow>
          (case payload ''questions'' of
             Some (AnySlice [el]) \<Rightarrow> question_of el
           | _ \<Rightarrow> None))"

text \<open>
  A text laid out as markers one after the other: before each marker a gap, after the
  last one a tail.
\<close>

fun layout :: "(string \<times> string) list \<Rightarrow> string \<Rightarrow> string" where
  "layout [] tail = tail"
| "layout ((gap, body) # ms) tail = gap @ OPEN @ body @ CLOSE @ layout ms tail"

text \<open>
  The markers of a layout are independent when no gap and not the tail contains the
  opening token, and no body contains the closing token.
\<close>

definition separated :: "(string \<times> string) list \<Rightarrow> string \<Rightarrow> bool" where
  "separated ms tail \<longleftrightarrow>
     (\<forall>(gap, body) \<in> set ms. \<not> sublist OPEN gap \<and> \<not> sublist CLOSE body) \<and>
     \<not> sublist OPEN tail"

text \<open>
  A tail holds no marker when it has no opening token, or no closing token behind its
  first opening token. The markers of a layout are apart when no gap contains the
  opening token and no body contains the closing token; with a tail that holds no
  marker, the markers of the layout are all the markers of the text.
\<close>

definition unterminated :: "string \<Rightarrow> bool" where
  "unterminated tail =
     (case Cut tail OPEN of None \<Rightarrow> True | Some (before, rest) \<Rightarrow> \<not> sublist CLOSE rest)"

definition apart :: "(string \<times> string) list \<Rightarrow> string \<Rightarrow> bool" where
  "apart ms tail \<longleftrightarrow>
     (\<forall>(gap, body) \<in> set ms. \<not> sublist OPEN gap \<and> \<not> sublist CLOSE body) \<and>
     unterminated tail"

section \<open>Sample data\<close>

text \<open>
  Data for the concrete checks below: a decoder that knows three lines of the wire
  format, and the options and operating-system answers of one invocation.
\<close>

definition sample_unmarshal :: unmarshal where
  \<open>sample_unmarshal line =
     (if line = ''{"type":"system","session_id":"abc"}''
      then Some [''type'' \<mapsto> AnyString ''system'', ''session_id'' \<mapsto> AnyString ''abc'']
      else if line = ''{"type":"result","result":"done","is_error":false}''
      then Some [''type'' \<mapsto> AnyString ''result'', ''result'' \<mapsto> AnyString ''done'',
                 ''is_error'' \<mapsto> AnyBool False]
      else if line = ''{"note":1}''
      then Some [''note'' \<mapsto> AnyFloat64 1]
      else None)\<close>

definition sample_opts :: RunOptions where
  "sample_opts =
     \<lparr>Prompt = ''hello'', SystemPrompt = ''be brief'',
      Config = \<lparr>Agent = \<lparr>Command = ''claude'',
                          Args = [''--output-format'', ''stream-json'', ''--verbose''],
                          AllowedTools = [''Bash'', ''Read'', ''Write''],
                          DangerouslySkipPermissions = False\<rparr>,
                Debug = \<lparr>Enabled = False, LogDir = ''.spektacular/logs''\<rparr>\<rparr>,
      SessionID_opts = ''sess-123'', CWD = ''/work'', Command_opts = ''plan''\<rparr>"

definition sample_world :: World where
  \<open>sample_world =
     \<lparr>getwd = Inr ''/home'', stdout_pipe = None, start = None, debug_log_opened = False,
      scanned = [''{"type":"system","session_id":"abc"}'', '''', ''not json'',
                 ''{"note":1}'', ''{"type":"result","result":"done","is_error":false}''],
      scan_stop = EOF, wait = Waited None\<rparr>\<close>


text \<open>
  The runners of the sources and a registry that holds both; a registry that also holds
  a constructor returning the nil Runner and a nil constructor; a configuration; and a
  rendering of runs of high bytes that keeps them, as the library does for the UTF-8
  encoding of printable runes.
\<close>

datatype Runner = Claude | stubRunner

definition sample_registry :: "Runner registry" where
  "sample_registry =
     Register ''claude'' (Some (\<lambda>_. Some Claude))
       (Register ''test-runner'' (Some (\<lambda>_. Some stubRunner)) [])"

definition odd_registry :: "Runner registry" where
  "odd_registry =
     Register ''unset'' None (Register ''empty'' (Some (\<lambda>_. None)) sample_registry)"

definition config_for :: "string \<Rightarrow> Config" where
  "config_for name =
     \<lparr>Agent = \<lparr>Command = name, Args = [], AllowedTools = [],
                DangerouslySkipPermissions = False\<rparr>,
      Debug = \<lparr>Enabled = False, LogDir = ''''\<rparr>\<rparr>"

definition keep_runes :: "string \<Rightarrow> string" where
  "keep_runes bytes = bytes"

text \<open>Marker bodies, the elements they hold, and a decoder that knows these bodies.\<close>

definition body_approach :: string where
  \<open>body_approach = ''{"questions":[{"question":"Which approach?","header":"Approach","options":[{"label":"A"},{"label":"B"}]}]}''\<close>

definition body_multiline :: string where
  \<open>body_multiline = ''{"questions":[\<newline>{"question":"Q?","header":"H","options":[],"freeText":true}\<newline>]}''\<close>

definition body_no_header :: string where
  \<open>body_no_header = ''{"questions":[{"question":"Q?","header":"H","options":[]},{"question":"No header"}]}''\<close>

definition question_approach :: any where
  "question_approach =
     AnyMap [''question'' \<mapsto> AnyString ''Which approach?'', ''header'' \<mapsto> AnyString ''Approach'',
             ''options'' \<mapsto> AnySlice [AnyMap [''label'' \<mapsto> AnyString ''A''],
                                      AnyMap [''label'' \<mapsto> AnyString ''B'']]]"

definition question_free :: any where
  "question_free =
     AnyMap [''question'' \<mapsto> AnyString ''Q?'', ''header'' \<mapsto> AnyString ''H'',
             ''options'' \<mapsto> AnySlice [], ''freeText'' \<mapsto> AnyBool True]"

definition question_plain :: any where
  "question_plain =
     AnyMap [''question'' \<mapsto> AnyString ''Q?'', ''header'' \<mapsto> AnyString ''H'',
             ''options'' \<mapsto> AnySlice []]"

definition question_no_header :: any where
  "question_no_header = AnyMap [''question'' \<mapsto> AnyString ''No header'']"

definition sample_decode :: unmarshal where
  "sample_decode body =
     (if body = body_approach then Some [''questions'' \<mapsto> AnySlice [question_approach]]
      else if body = body_multiline then Some [''questions'' \<mapsto> AnySlice [question_free]]
      else if body = body_no_header
      then Some [''questions'' \<mapsto> AnySlice [question_plain, question_no_header]]
      else None)"


section \<open>Properties of the event model\<close>

lemma go_eq_AnyString: "go_eq x (AnyString s) = Inr (x = AnyString s)"
  by (cases x) simp_all

lemma index_eq_AnyString: "index m k = AnyString s \<longleftrightarrow> m k = Some (AnyString s)"
  by (simp add: index_def split: option.splits)

lemma textLoop_eq: "textLoop content texts = Inr (texts @ List.map_filter text_field content)"
proof (induction content arbitrary: texts)
  case Nil
  show ?case by simp
next
  case (Cons item content)
  show ?case
  proof (cases item)
    case (AnyMap b)
    show ?thesis
    proof (cases "b ''type'' = Some (AnyString ''text'')")
      case True
      then show ?thesis
        using AnyMap Cons.IH
        by (cases "b ''text''"; cases "the (b ''text'')")
           (simp_all add: go_eq_AnyString index_def assertMap_def assertString_def
              text_field_def)
    next
      case False
      then show ?thesis
        using AnyMap Cons.IH
        by (simp add: go_eq_AnyString index_eq_AnyString assertMap_def text_field_def)
    qed
  qed (simp_all add: Cons.IH go_eq_AnyString index_def assertMap_def text_field_def)
qed

lemma toolLoop_eq: "toolLoop content tools = Inr (tools @ List.map_filter tool_block content)"
proof (induction content arbitrary: tools)
  case Nil
  show ?case by simp
next
  case (Cons item content)
  show ?case
  proof (cases item)
    case (AnyMap b)
    then show ?thesis
      using Cons.IH
      by (simp add: go_eq_AnyString index_eq_AnyString assertMap_def tool_block_def)
  qed (simp_all add: Cons.IH go_eq_AnyString index_def assertMap_def tool_block_def)
qed

lemma content_blocks_eq:
  "fst (assertSlice (index (fst (assertMap (index (Data e) ''message''))) ''content''))
     = content_blocks e"
  by (simp add: content_blocks_def index_def assertMap_def assertSlice_def
        split: option.splits any.splits)

lemma TextContent_eq:
  "TextContent e =
     (if Type e \<noteq> ''assistant'' then Inr '''' else Inr (Join (text_fields e) ''\<newline>''))"
  by (simp add: TextContent_def Let_def content_blocks_eq textLoop_eq text_fields_def)

lemma ToolUses_eq:
  "ToolUses e =
     (if Type e \<noteq> ''assistant'' then Inr []
      else Inr (List.map_filter tool_block (content_blocks e)))"
  by (simp add: ToolUses_def Let_def content_blocks_eq toolLoop_eq)

lemma content_blocks_assistant_event: "content_blocks (assistant_event c) = c"
  by (simp add: content_blocks_def assistant_event_def)

lemma Type_assistant_event: "Type (assistant_event c) = ''assistant''"
  by (simp add: assistant_event_def)

lemma map_filter_skip:
  "f item = None \<Longrightarrow> List.map_filter f (xs @ item # ys) = List.map_filter f (xs @ ys)"
  by (simp add: List.map_filter_def)

lemma content_blocks_no_message:
  "\<forall>msg. Data e ''message'' \<noteq> Some (AnyMap msg) \<Longrightarrow> content_blocks e = []"
  by (simp add: content_blocks_def split: option.splits any.splits)

lemma content_blocks_no_content:
  "Data e ''message'' = Some (AnyMap msg) \<Longrightarrow> \<forall>c. msg ''content'' \<noteq> Some (AnySlice c) \<Longrightarrow>
   content_blocks e = []"
  by (simp add: content_blocks_def split: option.splits any.splits)

lemma text_field_not_map: "\<forall>b. item \<noteq> AnyMap b \<Longrightarrow> text_field item = None"
  by (simp add: text_field_def split: any.splits)

lemma tool_block_not_map: "\<forall>b. item \<noteq> AnyMap b \<Longrightarrow> tool_block item = None"
  by (simp add: tool_block_def split: any.splits)

lemma text_field_not_string:
  "\<forall>t. b ''text'' \<noteq> Some (AnyString t) \<Longrightarrow> text_field (AnyMap b) = None"
  by (simp add: text_field_def split: option.splits any.splits)

section \<open>Claims about the event accessors\<close>

text \<open>
  C2. For every event whose kind is not \<^verbatim>\<open>assistant\<close>, \<^verbatim>\<open>TextContent\<close> is the empty string.
  For every assistant event it is the text fields of the \<^verbatim>\<open>message.content\<close> blocks of
  type \<^verbatim>\<open>text\<close>, in their order of appearance, joined with a newline.
\<close>

theorem TextContent_spec:
  "(Type e \<noteq> ''assistant'' \<longrightarrow> TextContent e = Inr '''') \<and>
   (Type e = ''assistant'' \<longrightarrow> TextContent e = Inr (Join (text_fields e) ''\<newline>''))"
  by (simp add: TextContent_eq)

theorem TextContent_spec_witness:
  \<open>TextContent (assistant_event
      [AnyMap [''type'' \<mapsto> AnyString ''text'', ''text'' \<mapsto> AnyString ''hello''],
       AnyMap [''type'' \<mapsto> AnyString ''tool_use'', ''name'' \<mapsto> AnyString ''Bash''],
       AnyMap [''type'' \<mapsto> AnyString ''text'', ''text'' \<mapsto> AnyString '' world'']])
     = Inr ''hello\<newline> world'' \<and>
   TextContent \<lparr>Type = ''result'', Data = Map.empty\<rparr> = Inr ''''\<close>
  using TextContent_spec [of "assistant_event
      [AnyMap [''type'' \<mapsto> AnyString ''text'', ''text'' \<mapsto> AnyString ''hello''],
       AnyMap [''type'' \<mapsto> AnyString ''tool_use'', ''name'' \<mapsto> AnyString ''Bash''],
       AnyMap [''type'' \<mapsto> AnyString ''text'', ''text'' \<mapsto> AnyString '' world'']]"]
    TextContent_spec [of "\<lparr>Type = ''result'', Data = Map.empty\<rparr>"]
  by (simp add: text_fields_def content_blocks_assistant_event text_field_def)
     (simp add: assistant_event_def)

text \<open>
  C3. For every event whose kind is not \<^verbatim>\<open>result\<close>, \<^verbatim>\<open>ResultText\<close> is empty and \<^verbatim>\<open>IsError\<close>
  is false. For every result event, \<^verbatim>\<open>ResultText\<close> is the payload's \<^verbatim>\<open>result\<close> string and
  \<^verbatim>\<open>IsError\<close> the payload's \<^verbatim>\<open>is_error\<close> boolean, false when absent or not a boolean.
  Neither accessor has a failing branch: both are built from map reads and two-result
  type assertions only, so they return a value on every event.
\<close>

theorem ResultText_IsError_spec:
  "(Type e \<noteq> ''result'' \<longrightarrow> ResultText e = '''' \<and> IsError e = False) \<and>
   (Type e = ''result'' \<longrightarrow>
      ResultText e = (case Data e ''result'' of Some (AnyString s) \<Rightarrow> s | _ \<Rightarrow> '''') \<and>
      IsError e = (case Data e ''is_error'' of Some (AnyBool b) \<Rightarrow> b | _ \<Rightarrow> False))"
  by (simp add: ResultText_def IsError_def IsResult_def index_def assertString_def
        assertBool_def split: option.splits any.splits)

theorem ResultText_IsError_spec_witness:
  "ResultText \<lparr>Type = ''assistant'', Data = [''result'' \<mapsto> AnyString ''plan text'']\<rparr> = '''' \<and>
   IsError \<lparr>Type = ''assistant'', Data = [''is_error'' \<mapsto> AnyBool True]\<rparr> = False \<and>
   ResultText \<lparr>Type = ''result'',
      Data = [''result'' \<mapsto> AnyString ''done'', ''is_error'' \<mapsto> AnyBool True]\<rparr> = ''done'' \<and>
   IsError \<lparr>Type = ''result'',
      Data = [''result'' \<mapsto> AnyString ''done'', ''is_error'' \<mapsto> AnyBool True]\<rparr> = True \<and>
   IsError \<lparr>Type = ''result'', Data = [''is_error'' \<mapsto> AnyString ''yes'']\<rparr> = False"
  using ResultText_IsError_spec
          [of "\<lparr>Type = ''assistant'', Data = [''result'' \<mapsto> AnyString ''plan text'']\<rparr>"]
        ResultText_IsError_spec
          [of "\<lparr>Type = ''assistant'', Data = [''is_error'' \<mapsto> AnyBool True]\<rparr>"]
        ResultText_IsError_spec
          [of "\<lparr>Type = ''result'',
                Data = [''result'' \<mapsto> AnyString ''done'', ''is_error'' \<mapsto> AnyBool True]\<rparr>"]
        ResultText_IsError_spec
          [of "\<lparr>Type = ''result'', Data = [''is_error'' \<mapsto> AnyString ''yes'']\<rparr>"]
  by simp

text \<open>
  C10. Whatever the shape of the payload, \<^verbatim>\<open>SessionID\<close>, \<^verbatim>\<open>TextContent\<close> and \<^verbatim>\<open>ToolUses\<close> return
  a value and never panic. \<^verbatim>\<open>SessionID\<close> is the empty string unless \<^verbatim>\<open>session_id\<close> holds a
  string. When the message field is missing or not a mapping, or its content is not a
  sequence, \<^verbatim>\<open>TextContent\<close> is the empty string and \<^verbatim>\<open>ToolUses\<close> the empty sequence. A content
  entry that is not a mapping, and a text block whose text field is not a string, is
  skipped: the result is the one obtained without that entry.
\<close>

theorem accessors_never_panic:
  "SessionID e = (case Data e ''session_id'' of Some (AnyString s) \<Rightarrow> s | _ \<Rightarrow> '''') \<and>
   (\<exists>t. TextContent e = Inr t) \<and>
   (\<exists>u. ToolUses e = Inr u) \<and>
   ((\<forall>msg. Data e ''message'' \<noteq> Some (AnyMap msg)) \<longrightarrow>
      TextContent e = Inr '''' \<and> ToolUses e = Inr []) \<and>
   (Data e ''message'' = Some (AnyMap m) \<and> (\<forall>c. m ''content'' \<noteq> Some (AnySlice c)) \<longrightarrow>
      TextContent e = Inr '''' \<and> ToolUses e = Inr []) \<and>
   ((\<forall>b. item \<noteq> AnyMap b) \<longrightarrow>
      TextContent (assistant_event (xs @ item # ys)) = TextContent (assistant_event (xs @ ys)) \<and>
      ToolUses (assistant_event (xs @ item # ys)) = ToolUses (assistant_event (xs @ ys))) \<and>
   ((\<forall>t. blk ''text'' \<noteq> Some (AnyString t)) \<longrightarrow>
      TextContent (assistant_event (xs @ AnyMap blk # ys)) = TextContent (assistant_event (xs @ ys)))"
proof -
  have sid: "SessionID e = (case Data e ''session_id'' of Some (AnyString s) \<Rightarrow> s | _ \<Rightarrow> '''')"
    by (simp add: SessionID_def index_def assertString_def split: option.splits any.splits)
  have tcv: "\<exists>t. TextContent e = Inr t"
    by (simp add: TextContent_eq)
  have tuv: "\<exists>u. ToolUses e = Inr u"
    by (simp add: ToolUses_eq)
  have nomsg: "TextContent e = Inr '''' \<and> ToolUses e = Inr []"
    if "\<forall>msg. Data e ''message'' \<noteq> Some (AnyMap msg)"
    using content_blocks_no_message [OF that]
    by (simp add: TextContent_eq ToolUses_eq text_fields_def)
  have nocontent: "TextContent e = Inr '''' \<and> ToolUses e = Inr []"
    if "Data e ''message'' = Some (AnyMap m) \<and> (\<forall>c. m ''content'' \<noteq> Some (AnySlice c))"
    using content_blocks_no_content [of e m] that
    by (simp add: TextContent_eq ToolUses_eq text_fields_def)
  have notmap:
    "TextContent (assistant_event (xs @ item # ys)) = TextContent (assistant_event (xs @ ys)) \<and>
     ToolUses (assistant_event (xs @ item # ys)) = ToolUses (assistant_event (xs @ ys))"
    if "\<forall>b. item \<noteq> AnyMap b"
    using map_filter_skip [of text_field item xs ys, OF text_field_not_map [OF that]]
      map_filter_skip [of tool_block item xs ys, OF tool_block_not_map [OF that]]
    by (simp add: TextContent_eq ToolUses_eq text_fields_def content_blocks_assistant_event
          Type_assistant_event)
  have nostring:
    "TextContent (assistant_event (xs @ AnyMap blk # ys)) = TextContent (assistant_event (xs @ ys))"
    if "\<forall>t. blk ''text'' \<noteq> Some (AnyString t)"
    using map_filter_skip [of text_field "AnyMap blk" xs ys, OF text_field_not_string [of blk, OF that]]
    by (simp add: TextContent_eq text_fields_def content_blocks_assistant_event
          Type_assistant_event)
  from sid tcv tuv nomsg nocontent notmap nostring show ?thesis
    by blast
qed

theorem accessors_never_panic_witness:
  "SessionID \<lparr>Type = ''assistant'', Data = [''message'' \<mapsto> AnySlice []]\<rparr> = '''' \<and>
   TextContent \<lparr>Type = ''assistant'', Data = [''message'' \<mapsto> AnySlice []]\<rparr> = Inr '''' \<and>
   ToolUses \<lparr>Type = ''assistant'', Data = [''message'' \<mapsto> AnySlice []]\<rparr> = Inr [] \<and>
   TextContent \<lparr>Type = ''assistant'',
      Data = [''message'' \<mapsto> AnyMap [''content'' \<mapsto> AnyString ''x'']]\<rparr> = Inr '''' \<and>
   ToolUses \<lparr>Type = ''assistant'',
      Data = [''message'' \<mapsto> AnyMap [''content'' \<mapsto> AnyString ''x'']]\<rparr> = Inr [] \<and>
   TextContent (assistant_event ([] @ AnyFloat64 3 # [])) = TextContent (assistant_event ([] @ [])) \<and>
   ToolUses (assistant_event ([] @ AnyFloat64 3 # [])) = ToolUses (assistant_event ([] @ [])) \<and>
   TextContent (assistant_event
      ([] @ AnyMap [''type'' \<mapsto> AnyString ''text'', ''text'' \<mapsto> AnyBool True] # []))
     = TextContent (assistant_event ([] @ []))"
proof -
  have a: "\<forall>msg. Data \<lparr>Type = ''assistant'', Data = [''message'' \<mapsto> AnySlice []]\<rparr> ''message''
             \<noteq> Some (AnyMap msg)"
    by simp
  have b: "Data \<lparr>Type = ''assistant'',
                 Data = [''message'' \<mapsto> AnyMap [''content'' \<mapsto> AnyString ''x'']]\<rparr> ''message''
             = Some (AnyMap [''content'' \<mapsto> AnyString ''x'']) \<and>
           (\<forall>c. [''content'' \<mapsto> AnyString ''x''] ''content'' \<noteq> Some (AnySlice c))"
    by simp
  have c: "\<forall>b. AnyFloat64 3 \<noteq> AnyMap b"
    by simp
  have d: "\<forall>t. [''type'' \<mapsto> AnyString ''text'', ''text'' \<mapsto> AnyBool True] ''text''
             \<noteq> Some (AnyString t)"
    by simp
  show ?thesis
    using a b c d
      accessors_never_panic [of "\<lparr>Type = ''assistant'', Data = [''message'' \<mapsto> AnySlice []]\<rparr>"
        "[''content'' \<mapsto> AnyString ''x'']" "AnyFloat64 3" "[]" "[]"
        "[''type'' \<mapsto> AnyString ''text'', ''text'' \<mapsto> AnyBool True]"]
      accessors_never_panic [of "\<lparr>Type = ''assistant'',
          Data = [''message'' \<mapsto> AnyMap [''content'' \<mapsto> AnyString ''x'']]\<rparr>"
        "[''content'' \<mapsto> AnyString ''x'']" "AnyFloat64 3" "[]" "[]"
        "[''type'' \<mapsto> AnyString ''text'', ''text'' \<mapsto> AnyBool True]"]
    by simp
qed

section \<open>Properties of the adapter\<close>

lemma scanLoop_eq:
  "scanLoop um dbg lines (evs, lg) =
     (evs @ map event_of (List.map_filter um (filter (\<lambda>l. l \<noteq> '''') lines)),
      lg @ (if dbg then filter (\<lambda>l. l \<noteq> '''') lines else []))"
proof (induction lines arbitrary: evs lg)
  case Nil
  show ?case by simp
next
  case (Cons line rest)
  show ?case
  proof (cases "line = ''''")
    case True
    then show ?thesis by (simp add: Cons.IH)
  next
    case False
    have ty: "fst (assertString (index data ''type''))
                = (case data ''type'' of Some (AnyString s) \<Rightarrow> s | _ \<Rightarrow> '''')" for data
      by (simp add: index_def assertString_def split: option.splits any.splits)
    show ?thesis
    proof (cases "um line")
      case None
      with False show ?thesis by (simp add: Cons.IH)
    next
      case (Some data)
      with False show ?thesis by (simp add: Cons.IH ty event_of_def)
    qed
  qed
qed

lemma run_started:
  assumes "run_starts opts w"
  shows "sent (run um opts w)
           = fst (scanLoop um (Enabled (Debug (Config opts)) \<and> debug_log_opened w)
                    (scanned w) ([], []))"
    and "returned (run um opts w) \<longleftrightarrow> scan_stop w \<noteq> NoStop \<and> wait w \<noteq> NoReturn"
    and "err (run um opts w) \<noteq> None \<longleftrightarrow>
           scan_stop w \<noteq> NoStop \<and> (case wait w of Waited (Some e) \<Rightarrow> True | _ \<Rightarrow> False)"
    and "launched (run um opts w)
           = Some (run_cmd opts, if CWD opts = '''' then projr (getwd w) else CWD opts)"
  using assms
  by (auto simp: run_def run_starts_def getwd_failed_def Let_def
           split: sum.splits option.splits prod.splits wait_result.splits)

lemma run_not_started:
  assumes "\<not> run_starts opts w"
  shows "sent (run um opts w) = []" and "err (run um opts w) \<noteq> None"
    and "returned (run um opts w)" and "launched (run um opts w) = None"
  using assms
  by (auto simp: run_def run_starts_def getwd_failed_def Let_def
           split: sum.splits option.splits prod.splits)

lemma err_run_iff: "err (run um opts w) \<noteq> None \<longleftrightarrow> run_failed opts w"
proof (cases "run_starts opts w")
  case True
  then show ?thesis
    using run_started(3) [of opts w um] by (simp add: run_failed_def)
next
  case False
  then show ?thesis
    using run_not_started(2) [of opts w um] by (simp add: run_failed_def)
qed

lemma returned_run_iff: "returned (run um opts w) \<longleftrightarrow> run_ends opts w"
proof (cases "run_starts opts w")
  case True
  then show ?thesis
    using run_started(2) [of opts w um] by (simp add: run_ends_def)
next
  case False
  then show ?thesis
    using run_not_started(3) [of opts w um] by (simp add: run_ends_def)
qed

lemma err_run_returned: "err (run um opts w) \<noteq> None \<Longrightarrow> returned (run um opts w)"
  unfolding err_run_iff returned_run_iff
  by (auto simp: run_failed_def run_ends_def split: wait_result.splits)

lemma map_filter_SendEvent:
  "List.map_filter (\<lambda>x. case x of SendErr e \<Rightarrow> Some e | _ \<Rightarrow> None) (map SendEvent evs) = []"
  by (induction evs) simp_all

lemma errc_values_Run:
  "errc_values (Run um opts w) = (case err (run um opts w) of Some e \<Rightarrow> [e] | None \<Rightarrow> [])"
proof (cases "err (run um opts w)")
  case None
  then show ?thesis
    by (simp add: Run_def errc_values_def Let_def List.map_filter_def)
next
  case (Some e)
  then have "returned (run um opts w)" using err_run_returned [of um opts w] by simp
  with Some show ?thesis
    by (simp add: Run_def errc_values_def Let_def List.map_filter_def)
qed

text \<open>
  What the goroutine does on the two channels. The error channel receives at most one
  value, and it receives one exactly when \<^verbatim>\<open>run\<close> failed. When the invocation comes to an
  end, the operations are the event sends, then the error send if any, then the close of
  the error channel and the close of the event channel; until then they are event sends
  only.
\<close>

lemma Run_channels:
  "length (errc_values (Run um opts w)) \<le> 1 \<and>
   (errc_values (Run um opts w) \<noteq> [] \<longleftrightarrow> run_failed opts w) \<and>
   (run_ends opts w \<longrightarrow>
      Run um opts w =
        map SendEvent (sent (run um opts w)) @ map SendErr (errc_values (Run um opts w))
          @ [CloseErrc, CloseEvents]) \<and>
   (\<not> run_ends opts w \<longrightarrow> Run um opts w = map SendEvent (sent (run um opts w)))"
proof -
  have a: "length (errc_values (Run um opts w)) \<le> 1"
    by (simp add: errc_values_Run split: option.splits)
  have b: "errc_values (Run um opts w) \<noteq> [] \<longleftrightarrow> run_failed opts w"
    using err_run_iff [of um opts w]
    by (cases "err (run um opts w)") (simp_all add: errc_values_Run)
  have c: "Run um opts w =
     map SendEvent (sent (run um opts w)) @ map SendErr (errc_values (Run um opts w))
       @ [CloseErrc, CloseEvents]"
    if "run_ends opts w"
    using that returned_run_iff [of um opts w] unfolding errc_values_Run
    by (simp add: Run_def Let_def split: option.splits)
  have d: "Run um opts w = map SendEvent (sent (run um opts w))" if "\<not> run_ends opts w"
    using that returned_run_iff [of um opts w] by (simp add: Run_def Let_def)
  from a b c d show ?thesis by blast
qed

section \<open>Claims about the adapter\<close>

text \<open>
  C5. The error channel is to yield a value exactly when the invocation suffered a
  transport error, an output line longer than the per-line buffer being one of them, and
  to be closed afterwards. \<^verbatim>\<open>run\<close> returns the error of every other failure (\<^verbatim>\<open>Getwd\<close>,
  \<^verbatim>\<open>StdoutPipe\<close>, \<^verbatim>\<open>Start\<close>, \<^verbatim>\<open>Wait\<close>), but it sets the 1 MiB buffer and never reads the
  scanner's error after the loop. So the code does not do what C5 says for a line over
  the limit. When the process writes one event and then such a line, and exits cleanly,
  the event is sent, the error channel receives nothing and both channels are closed as
  after a clean run. When the process instead stays blocked on writing the rest of the
  line, so that \<^verbatim>\<open>Wait\<close> does not return, the error channel receives nothing and neither
  channel is closed.
\<close>

theorem Run_long_line_no_error:
  \<open>scan_stop (sample_world\<lparr>scanned := [''{"type":"system","session_id":"abc"}''],
                             scan_stop := ErrTooLong\<rparr>) = ErrTooLong \<and>
   Run sample_unmarshal sample_opts
     (sample_world\<lparr>scanned := [''{"type":"system","session_id":"abc"}''],
                   scan_stop := ErrTooLong\<rparr>)
     = [SendEvent \<lparr>Type = ''system'',
                   Data = [''type'' \<mapsto> AnyString ''system'',
                           ''session_id'' \<mapsto> AnyString ''abc'']\<rparr>,
        CloseErrc, CloseEvents] \<and>
   errc_values (Run sample_unmarshal sample_opts
     (sample_world\<lparr>scanned := [''{"type":"system","session_id":"abc"}''],
                   scan_stop := ErrTooLong\<rparr>)) = [] \<and>
   Run sample_unmarshal sample_opts
     (sample_world\<lparr>scanned := [''{"type":"system","session_id":"abc"}''],
                   scan_stop := ErrTooLong, wait := NoReturn\<rparr>)
     = [SendEvent \<lparr>Type = ''system'',
                   Data = [''type'' \<mapsto> AnyString ''system'',
                           ''session_id'' \<mapsto> AnyString ''abc'']\<rparr>]\<close>
  by (simp add: errc_values_Run)
     (simp add: Run_def run_def sample_opts_def sample_world_def sample_unmarshal_def
        index_def assertString_def)

text \<open>
  C6. In the reading loop every empty line is skipped, every other line that the decoder
  rejects is skipped, and every line it accepts becomes exactly one event, whose kind is
  the string under \<^verbatim>\<open>type\<close> (empty when absent or not a string) and whose payload is the
  decoded object; the events are sent in the order of the lines. These are the events
  that a started invocation sends.
\<close>

theorem scanLoop_events:
  "fst (scanLoop um dbg lines ([], []))
     = map event_of (List.map_filter um (filter (\<lambda>l. l \<noteq> '''') lines)) \<and>
   (run_starts opts w \<longrightarrow>
      sent (run um opts w)
        = map event_of (List.map_filter um (filter (\<lambda>l. l \<noteq> '''') (scanned w))))"
  using run_started(1) [of opts w um] by (simp add: scanLoop_eq)

theorem scanLoop_events_witness:
  "sent (run sample_unmarshal sample_opts sample_world) =
     [\<lparr>Type = ''system'',
       Data = [''type'' \<mapsto> AnyString ''system'', ''session_id'' \<mapsto> AnyString ''abc'']\<rparr>,
      \<lparr>Type = '''', Data = [''note'' \<mapsto> AnyFloat64 1]\<rparr>,
      \<lparr>Type = ''result'',
       Data = [''type'' \<mapsto> AnyString ''result'', ''result'' \<mapsto> AnyString ''done'',
               ''is_error'' \<mapsto> AnyBool False]\<rparr>]"
proof -
  have h: "run_starts sample_opts sample_world"
    by (simp add: run_starts_def getwd_failed_def sample_opts_def sample_world_def)
  have s: "scanned sample_world =
             [''{\"type\":\"system\",\"session_id\":\"abc\"}'', '''', ''not json'',
              ''{\"note\":1}'', ''{\"type\":\"result\",\"result\":\"done\",\"is_error\":false}'']"
    by (simp add: sample_world_def)
  show ?thesis
    using h scanLoop_events [of sample_unmarshal False "[]" sample_opts sample_world]
    by (simp add: s sample_unmarshal_def event_of_def)
qed

text \<open>
  C7. The command line is the executable name, \<^verbatim>\<open>-p\<close> with the prompt, \<^verbatim>\<open>--system-prompt\<close>
  with the system prompt exactly when one is supplied, the configured argument list,
  \<^verbatim>\<open>--allowedTools\<close> with the comma-joined list exactly when that list is not empty,
  \<^verbatim>\<open>--dangerously-skip-permissions\<close> exactly when the flag is set, and \<^verbatim>\<open>--resume\<close> with the
  session identifier exactly when one is present. It is the command the process is
  launched with.
\<close>

theorem run_cmd_spec:
  "run_cmd opts =
     [Command (Agent (Config opts)), ''-p'', Prompt opts]
     @ (if SystemPrompt opts = '''' then [] else [''--system-prompt'', SystemPrompt opts])
     @ Args (Agent (Config opts))
     @ (if AllowedTools (Agent (Config opts)) = [] then []
        else [''--allowedTools'', Join (AllowedTools (Agent (Config opts))) '',''])
     @ (if DangerouslySkipPermissions (Agent (Config opts))
        then [''--dangerously-skip-permissions''] else [])
     @ (if SessionID_opts opts = '''' then [] else [''--resume'', SessionID_opts opts]) \<and>
   (\<forall>c d. launched (run um opts w) = Some (c, d) \<longrightarrow> c = run_cmd opts)"
proof -
  have "launched (run um opts w) = Some (c, d) \<longrightarrow> c = run_cmd opts" for c d
    using run_started(4) [of opts w um] run_not_started(4) [of opts w um]
    by (cases "run_starts opts w") auto
  then show ?thesis
    by (simp add: run_cmd_def Let_def)
qed

theorem run_cmd_spec_witness:
  "run_cmd sample_opts =
     [''claude'', ''-p'', ''hello'', ''--system-prompt'', ''be brief'',
      ''--output-format'', ''stream-json'', ''--verbose'',
      ''--allowedTools'', ''Bash,Read,Write'', ''--resume'', ''sess-123''] \<and>
   launched (run sample_unmarshal sample_opts sample_world) = Some (run_cmd sample_opts, ''/work'')"
proof -
  have h: "run_starts sample_opts sample_world"
    by (simp add: run_starts_def getwd_failed_def sample_opts_def sample_world_def)
  have l: "launched (run sample_unmarshal sample_opts sample_world)
             = Some (run_cmd sample_opts, ''/work'')"
    using run_started(4) [OF h, of sample_unmarshal] by (simp add: sample_opts_def)
  show ?thesis
    using l run_cmd_spec [of sample_opts sample_unmarshal sample_world]
    by (simp add: sample_opts_def)
qed

section \<open>Properties of the registry\<close>

lemma escape_plain: "plain_char c \<Longrightarrow> escape_byte c = [c]"
  by (simp add: escape_byte_def plain_char_def Let_def)

lemma plain_not_high: "plain_char c \<Longrightarrow> \<not> high_byte c"
  by (simp add: plain_char_def high_byte_def)

lemma Quote_plain:
  assumes "\<forall>c\<in>set s. plain_char c"
  shows "Quote runes s = [CHR 0x22] @ s @ [CHR 0x22]"
proof -
  from assms have "quote_bytes runes [] s = s"
    by (induction s) (simp_all add: escape_plain plain_not_high)
  then show ?thesis by (simp add: Quote_def)
qed

text \<open>
  A name with a printable rune above ASCII: \<^verbatim>\<open>caf\<close> and the two bytes of U+00E9. The run of
  high bytes is handed to the rendering of runes as a whole, and the quoted name holds
  the name as it is when that rendering keeps the rune.
\<close>

lemma Quote_high_run:
  "Quote runes (''caf'' @ [CHR 0xC3, CHR 0xA9])
     = [CHR 0x22] @ ''caf'' @ runes [CHR 0xC3, CHR 0xA9] @ [CHR 0x22] \<and>
   Quote keep_runes (''caf'' @ [CHR 0xC3, CHR 0xA9])
     = [CHR 0x22] @ ''caf'' @ [CHR 0xC3, CHR 0xA9] @ [CHR 0x22]"
  by (simp add: Quote_def escape_byte_def high_byte_def keep_runes_def)

lemma registeredNames_sorted: "sorted (registeredNames reg)"
  by (simp add: registeredNames_def)

lemma registeredNames_set: "set (registeredNames reg) = dom (map_of reg)"
  by (simp add: registeredNames_def dom_map_of_conv_image_fst)

lemma registeredNames_distinct: "distinct (map fst reg) \<Longrightarrow> distinct (registeredNames reg)"
  by (simp add: registeredNames_def)

lemma Register_lookup: "map_of (Register n c reg) = (map_of reg)(n \<mapsto> c)"
  by (simp add: Register_def update_conv')

lemma Register_distinct: "distinct (map fst reg) \<Longrightarrow> distinct (map fst (Register n c reg))"
  by (simp add: Register_def distinct_update)

lemma sublist_middle: "sublist x (a @ x @ b)"
  by (auto simp: sublist_def)

lemma sample_names: "registeredNames sample_registry = [''claude'', ''test-runner'']"
  by (simp add: sample_registry_def registeredNames_def Register_def)

lemma odd_names: "registeredNames odd_registry = [''claude'', ''empty'', ''test-runner'', ''unset'']"
  by (simp add: odd_registry_def sample_registry_def registeredNames_def Register_def)

section \<open>Claims about the registry\<close>

text \<open>
  C8, as the code has it. When the agent command of the configuration is registered with
  a constructor that is not nil, \<^verbatim>\<open>NewRunner\<close> returns the Runner that this constructor
  produces, and no error; the Runner is not nil when the constructor returns one that is
  not nil. When the command is registered with the nil function, the call panics. When
  the command is not registered, \<^verbatim>\<open>NewRunner\<close> returns the nil Runner and an error whose
  message is \<^verbatim>\<open>unsupported runner: \<close>, the name as \<^verbatim>\<open>%q\<close> renders it, and in parentheses
  \<^verbatim>\<open>available: \<close> with the registered names in sorted order between brackets, separated
  by spaces. The message contains the name itself whenever \<^verbatim>\<open>%q\<close> only puts it between
  double quotes. The function launches nothing: it reads the registry only.
\<close>

theorem NewRunner_spec:
  "(map_of registry (Command (Agent cfg)) = Some (Some constructor) \<longrightarrow>
      NewRunner quote registry cfg = Inr (constructor (), None)) \<and>
   (map_of registry (Command (Agent cfg)) = Some (Some constructor) \<and> constructor () = Some r \<longrightarrow>
      NewRunner quote registry cfg = Inr (Some r, None)) \<and>
   (map_of registry (Command (Agent cfg)) = Some None \<longrightarrow>
      NewRunner quote registry cfg = Inl NilFunctionCall) \<and>
   (map_of registry (Command (Agent cfg)) = None \<longrightarrow>
      (\<exists>msg. NewRunner quote registry cfg = Inr (None, Some msg) \<and>
         msg = ''unsupported runner: '' @ quote (Command (Agent cfg))
               @ '' (available: ['' @ Join (registeredNames registry) '' '' @ ''])'' \<and>
         sublist ''unsupported runner'' msg \<and>
         sublist (quote (Command (Agent cfg))) msg \<and>
         sublist (Join (registeredNames registry) '' '') msg \<and>
         (quote (Command (Agent cfg)) = [CHR 0x22] @ Command (Agent cfg) @ [CHR 0x22] \<longrightarrow>
            sublist (Command (Agent cfg)) msg))) \<and>
   sorted (registeredNames registry) \<and>
   set (registeredNames registry) = dom (map_of registry) \<and>
   (distinct (map fst registry) \<longrightarrow> distinct (registeredNames registry))"
proof -
  let ?n = "Command (Agent cfg)"
  let ?msg = "''unsupported runner: '' @ quote ?n
               @ '' (available: ['' @ Join (registeredNames registry) '' '' @ ''])''"
  have hit: "NewRunner quote registry cfg = Inr (constructor (), None)"
    if "map_of registry ?n = Some (Some constructor)"
    using that by (simp add: NewRunner_def)
  have hit': "NewRunner quote registry cfg = Inr (Some r, None)"
    if "map_of registry ?n = Some (Some constructor) \<and> constructor () = Some r"
    using that by (simp add: NewRunner_def)
  have nil: "NewRunner quote registry cfg = Inl NilFunctionCall"
    if "map_of registry ?n = Some None"
    using that by (simp add: NewRunner_def)
  have miss: "NewRunner quote registry cfg = Inr (None, Some ?msg)"
    if "map_of registry ?n = None"
    using that by (simp add: NewRunner_def fmt_v_def)
  have s1: "sublist ''unsupported runner'' ?msg"
    using sublist_middle [of "''unsupported runner''" "[]"] by simp
  have s2: "sublist (quote ?n) ?msg"
    using sublist_middle [of "quote ?n" "''unsupported runner: ''"] by simp
  have s3: "sublist (Join (registeredNames registry) '' '') ?msg"
    using sublist_middle [of "Join (registeredNames registry) '' ''"
            "''unsupported runner: '' @ quote ?n @ '' (available: [''" "''])''"]
    by simp
  have s4: "sublist ?n ?msg" if "quote ?n = [CHR 0x22] @ ?n @ [CHR 0x22]"
    using sublist_middle [of ?n "''unsupported runner: '' @ [CHR 0x22]"] that by simp
  show ?thesis
    using hit hit' nil miss s1 s2 s3 s4 registeredNames_sorted [of registry]
      registeredNames_set [of registry] registeredNames_distinct [of registry]
    by blast
qed

theorem NewRunner_spec_witness:
  \<open>NewRunner (Quote keep_runes) odd_registry (config_for ''test-runner'')
     = Inr (Some stubRunner, None) \<and>
   NewRunner (Quote keep_runes) odd_registry (config_for ''unset'') = Inl NilFunctionCall \<and>
   NewRunner (Quote keep_runes) odd_registry (config_for ''unknown-agent'')
     = Inr (None,
            Some ''unsupported runner: "unknown-agent" (available: [claude empty test-runner unset])'') \<and>
   sublist ''unknown-agent''
     ''unsupported runner: "unknown-agent" (available: [claude empty test-runner unset])''\<close>
proof -
  have hit: "map_of odd_registry (Command (Agent (config_for ''test-runner'')))
               = Some (Some (\<lambda>_. Some stubRunner)) \<and> (\<lambda>_. Some stubRunner) () = Some stubRunner"
    by (simp add: odd_registry_def sample_registry_def Register_def config_for_def)
  have nil: "map_of odd_registry (Command (Agent (config_for ''unset''))) = Some None"
    by (simp add: odd_registry_def sample_registry_def Register_def config_for_def)
  have miss: "map_of odd_registry (Command (Agent (config_for ''unknown-agent''))) = None"
    by (simp add: odd_registry_def sample_registry_def Register_def config_for_def)
  have q: "Quote keep_runes (Command (Agent (config_for ''unknown-agent'')))
             = [CHR 0x22] @ Command (Agent (config_for ''unknown-agent'')) @ [CHR 0x22]"
    by (simp add: Quote_plain plain_char_def config_for_def)
  have d: "distinct (map fst odd_registry)"
    by (simp add: odd_registry_def sample_registry_def Register_def)
  show ?thesis
    using hit nil miss q d
      NewRunner_spec [of odd_registry "config_for ''test-runner''" "\<lambda>_. Some stubRunner"
        "Quote keep_runes" stubRunner]
      NewRunner_spec [of odd_registry "config_for ''unset''" "\<lambda>_. Some stubRunner"
        "Quote keep_runes" stubRunner]
      NewRunner_spec [of odd_registry "config_for ''unknown-agent''" "\<lambda>_. Some stubRunner"
        "Quote keep_runes" stubRunner]
    by (simp add: odd_names) (simp add: config_for_def)
qed

text \<open>
  C8, as it is worded, has a non-nil Runner for every registered command and has the
  message contain the requested name. A registered constructor may return the nil
  Runner, which \<^verbatim>\<open>NewRunner\<close> passes on with a nil error. And the verb \<^verbatim>\<open>%q\<close> writes the name
  as a Go string literal: for the command \<^verbatim>\<open>C:\claude\<close> the message holds \<^verbatim>\<open>"C:\\claude"\<close>,
  with the backslash doubled, and the name is not a part of it.
\<close>

theorem NewRunner_name_escaped:
  "NewRunner (Quote keep_runes) odd_registry (config_for ''empty'') = Inr (None, None) \<and>
   map_of odd_registry ''empty'' \<noteq> None \<and>
   NewRunner (Quote keep_runes) sample_registry (config_for (''C:'' @ [CHR 0x5C] @ ''claude''))
     = Inr (None, Some (''unsupported runner: '' @ [CHR 0x22] @ ''C:'' @ [CHR 0x5C, CHR 0x5C]
                     @ ''claude'' @ [CHR 0x22] @ '' (available: [claude test-runner])'')) \<and>
   \<not> sublist (''C:'' @ [CHR 0x5C] @ ''claude'')
       (''unsupported runner: '' @ [CHR 0x22] @ ''C:'' @ [CHR 0x5C, CHR 0x5C] @ ''claude''
          @ [CHR 0x22] @ '' (available: [claude test-runner])'')"
proof -
  have e: "NewRunner (Quote keep_runes) odd_registry (config_for ''empty'') = Inr (None, None)"
          "map_of odd_registry ''empty'' \<noteq> None"
    by (simp_all add: NewRunner_def odd_registry_def sample_registry_def Register_def
          config_for_def)
  have a: "NewRunner (Quote keep_runes) sample_registry
             (config_for (''C:'' @ [CHR 0x5C] @ ''claude''))
     = Inr (None, Some (''unsupported runner: '' @ [CHR 0x22] @ ''C:'' @ [CHR 0x5C, CHR 0x5C]
                     @ ''claude'' @ [CHR 0x22] @ '' (available: [claude test-runner])''))"
  proof -
    have cmd: "Command (Agent (config_for (''C:'' @ [CHR 0x5C] @ ''claude'')))
                 = ''C:'' @ [CHR 0x5C] @ ''claude''"
      by (simp add: config_for_def)
    have miss: "map_of sample_registry (''C:'' @ [CHR 0x5C] @ ''claude'') = None"
      by (simp add: sample_registry_def Register_def)
    have q: "Quote keep_runes (''C:'' @ [CHR 0x5C] @ ''claude'')
               = [CHR 0x22] @ ''C:'' @ [CHR 0x5C, CHR 0x5C] @ ''claude'' @ [CHR 0x22]"
      by (simp add: Quote_def escape_byte_def high_byte_def)
    show ?thesis
      unfolding NewRunner_def cmd miss q sample_names fmt_v_def by simp
  qed
  have b: "\<not> sublist (''C:'' @ [CHR 0x5C] @ ''claude'')
       (''unsupported runner: '' @ [CHR 0x22] @ ''C:'' @ [CHR 0x5C, CHR 0x5C] @ ''claude''
          @ [CHR 0x22] @ '' (available: [claude test-runner])'')"
    by (simp add: sublist_Cons_right)
  from e a b show ?thesis by blast
qed

section \<open>Properties of the question detector\<close>

lemma Cut_sound: "Cut s sep = Some (b, a) \<Longrightarrow> s = b @ sep @ a"
proof (induction s arbitrary: b)
  case Nil
  then show ?case by (simp split: if_splits)
next
  case (Cons c s)
  show ?case
  proof (cases "prefix sep (c # s)")
    case True
    with Cons.prems show ?thesis by (auto simp: prefix_def)
  next
    case False
    with Cons.prems obtain b' where "Cut s sep = Some (b', a)" "b = c # b'"
      by (auto split: prod.splits)
    with Cons.IH show ?thesis by simp
  qed
qed

lemma Cut_None: "sep \<noteq> [] \<Longrightarrow> Cut s sep = None \<longleftrightarrow> \<not> sublist sep s"
  by (induction s) (auto simp: sublist_Cons_right)

lemma OPEN_Cons: "OPEN = CHR ''<'' # ''!--QUESTION:''"
  by (simp add: OPEN_def)

text \<open>
  The opening token has its first character nowhere else, so an occurrence of it cannot
  begin inside a gap and end inside the token that follows the gap.
\<close>

lemma Cut_gap:
  assumes "\<not> sublist OPEN gap"
  shows "Cut (gap @ OPEN @ r) OPEN = Some (gap, r)"
  using assms
proof (induction gap)
  case Nil
  then show ?case by (simp add: OPEN_Cons)
next
  case (Cons c gap)
  have np: "\<not> prefix OPEN ((c # gap) @ OPEN @ r)"
  proof
    assume p: "prefix OPEN ((c # gap) @ OPEN @ r)"
    then have c: "c = CHR ''<''" and t: "prefix ''!--QUESTION:'' (gap @ OPEN @ r)"
      by (simp_all only: OPEN_Cons append_Cons prefix_Cons list.inject) auto
    from t consider "prefix ''!--QUESTION:'' gap"
      | us where "''!--QUESTION:'' = gap @ us" "prefix us (OPEN @ r)" "us \<noteq> []"
      unfolding prefix_append by (metis append_Nil2 prefix_order.refl)
    then show False
    proof cases
      case 1
      then have "prefix OPEN (c # gap)" using c by (simp add: OPEN_Cons)
      then have "sublist OPEN (c # gap)" by (rule prefix_imp_sublist)
      with Cons.prems show False by simp
    next
      case 2
      then obtain u us' where us: "us = u # us'" by (cases us) auto
      with 2(2) have "u = CHR ''<''" by (simp add: OPEN_Cons)
      with 2(1) us have "CHR ''<'' \<in> set ''!--QUESTION:''"
        by (metis in_set_conv_decomp)
      then show False by simp
    qed
  qed
  have "\<not> sublist OPEN gap" using Cons.prems by (simp add: sublist_Cons_right)
  with Cons.IH np show ?case by simp
qed

lemma Cut_body:
  assumes "\<not> sublist CLOSE body"
  shows "Cut (body @ CLOSE @ r) CLOSE = Some (body, r)"
  using assms
proof (induction body)
  case Nil
  then show ?case by (simp add: CLOSE_def)
next
  case (Cons c body)
  have np: "\<not> prefix CLOSE ((c # body) @ CLOSE @ r)"
  proof
    assume p: "prefix CLOSE ((c # body) @ CLOSE @ r)"
    then consider "prefix CLOSE (c # body)"
      | us where "CLOSE = (c # body) @ us" "prefix us (CLOSE @ r)" "us \<noteq> []"
      unfolding prefix_append by (metis append_Nil2 prefix_order.refl)
    then show False
    proof cases
      case 1
      then have "sublist CLOSE (c # body)" by (rule prefix_imp_sublist)
      with Cons.prems show False by simp
    next
      case 2
      from 2(1,3) have "us = ''->'' \<or> us = ''>''"
        by (auto simp: CLOSE_def Cons_eq_append_conv)
      with 2(2) show False by (auto simp: CLOSE_def)
    qed
  qed
  have "\<not> sublist CLOSE body" using Cons.prems by (simp add: sublist_Cons_right)
  with Cons.IH np show ?case by simp
qed

lemma matches_layout:
  "separated ms tail \<Longrightarrow> questionPattern_matches (layout ms tail) = map snd ms"
proof (induction ms)
  case Nil
  then have "Cut tail OPEN = None" by (simp add: separated_def Cut_None OPEN_def)
  then show ?case by (simp add: questionPattern_matches.simps)
next
  case (Cons m ms)
  obtain gap body where m: "m = (gap, body)" by (cases m)
  from Cons.prems have g: "\<not> sublist OPEN gap" and b: "\<not> sublist CLOSE body"
    and rest: "separated ms tail"
    by (simp_all add: separated_def m)
  show ?case
    using Cons.IH [OF rest]
    by (subst questionPattern_matches.simps) (simp add: m Cut_gap [OF g] Cut_body [OF b])
qed

lemma matches_occur:
  "body \<in> set (questionPattern_matches s) \<Longrightarrow>
   \<exists>pre post. s = pre @ OPEN @ body @ CLOSE @ post"
proof (induction s rule: questionPattern_matches.induct)
  case (1 s)
  show ?case
  proof (cases "Cut s OPEN")
    case None
    with "1.prems" show ?thesis by (simp add: questionPattern_matches.simps)
  next
    case (Some p)
    obtain before rest where p: "p = (before, rest)" by (cases p)
    show ?thesis
    proof (cases "Cut rest CLOSE")
      case None
      with Some p "1.prems" show ?thesis by (simp add: questionPattern_matches.simps)
    next
      case (Some q)
      obtain b rest' where q: "q = (b, rest')" by (cases q)
      have t: "s = before @ OPEN @ b @ CLOSE @ rest'"
        using Cut_sound [of s OPEN before rest] Cut_sound [of rest CLOSE b rest']
          \<open>Cut s OPEN = Some p\<close> Some p q by simp
      from "1.prems" \<open>Cut s OPEN = Some p\<close> Some p q
      have "body = b \<or> body \<in> set (questionPattern_matches rest')"
        by (subst (asm) questionPattern_matches.simps) simp
      then show ?thesis
      proof
        assume "body = b"
        with t show ?thesis by blast
      next
        assume "body \<in> set (questionPattern_matches rest')"
        from "1.IH" [OF \<open>Cut s OPEN = Some p\<close> p [symmetric] Some q [symmetric] this]
        obtain pre post where "rest' = pre @ OPEN @ body @ CLOSE @ post" by blast
        with t have "s = (before @ OPEN @ b @ CLOSE @ pre) @ OPEN @ body @ CLOSE @ post"
          by simp
        then show ?thesis by blast
      qed
    qed
  qed
qed

lemma detectLoop_eq: "detectLoop um bodies qs = qs @ concat (map (span_questions um) bodies)"
  by (induction bodies arbitrary: qs) simp_all

lemma detectQuestions_eq:
  "detectQuestions um t = concat (map (span_questions um) (questionPattern_matches t))"
  by (simp add: detectQuestions_def detectLoop_eq)

lemma those_eq_Some: "those xs = Some ys \<longleftrightarrow> xs = map Some ys"
proof (induction xs arbitrary: ys)
  case Nil
  show ?case by auto
next
  case (Cons x xs)
  show ?case by (cases x; cases ys) (auto simp: Cons.IH split: option.splits)
qed

lemma those_eq_None: "those xs = None \<longleftrightarrow> None \<in> set xs"
  by (induction xs) (auto split: option.splits)

lemma those_map_None:
  "x \<in> set xs \<Longrightarrow> f x = None \<Longrightarrow> those (map f xs) = None"
  unfolding those_eq_None by (metis image_eqI list.set_map)

lemma span_questions_malformed:
  "um body = Some payload \<Longrightarrow> payload ''questions'' = Some (AnySlice els) \<Longrightarrow>
   el \<in> set els \<Longrightarrow> question_of el = None \<Longrightarrow> span_questions um body = []"
  by (simp add: span_questions_def those_map_None)

lemma span_questions_no_array:
  assumes "um body = Some payload" "\<forall>els. payload ''questions'' \<noteq> Some (AnySlice els)"
  shows "span_questions um body = []"
proof (cases "payload ''questions''")
  case None
  with assms show ?thesis by (simp add: span_questions_def)
next
  case (Some v)
  with assms show ?thesis by (cases v) (simp_all add: span_questions_def)
qed

lemma span_questions_not_well_formed:
  assumes "\<not> well_formed um body"
  shows "span_questions um body = []"
proof (cases "um body")
  case None
  then show ?thesis by (simp add: span_questions_def)
next
  case (Some payload)
  show ?thesis
  proof (cases "\<exists>els. payload ''questions'' = Some (AnySlice els)")
    case True
    then obtain els where els: "payload ''questions'' = Some (AnySlice els)" by blast
    with assms Some obtain el where "el \<in> set els" "question_of el = None"
      by (auto simp: well_formed_def list_all_iff)
    with Some els show ?thesis by (rule span_questions_malformed)
  next
    case False
    with Some show ?thesis by (simp add: span_questions_no_array)
  qed
qed

lemma span_questions_single:
  "single_question um body = Some q \<Longrightarrow> span_questions um body = [q]"
  by (auto simp: single_question_def span_questions_def
           split: option.splits any.splits list.splits)

lemma span_questions_source:
  assumes "Q \<in> set (span_questions um body)"
  shows "\<exists>payload els. um body = Some payload \<and> payload ''questions'' = Some (AnySlice els) \<and>
           (\<forall>el\<in>set els. question_of el \<noteq> None) \<and> (\<exists>el\<in>set els. question_of el = Some Q)"
proof (cases "um body")
  case None
  with assms show ?thesis by (simp add: span_questions_def)
next
  case (Some payload)
  show ?thesis
  proof (cases "\<exists>els. payload ''questions'' = Some (AnySlice els)")
    case False
    with Some assms show ?thesis by (simp add: span_questions_no_array)
  next
    case True
    then obtain els where els: "payload ''questions'' = Some (AnySlice els)" by blast
    show ?thesis
    proof (cases "those (map question_of els)")
      case None
      with Some els assms show ?thesis by (simp add: span_questions_def)
    next
      case (Some qs)
      then have m: "map question_of els = map Some qs" by (simp add: those_eq_Some)
      from Some \<open>um body = Some payload\<close> els assms have Q: "Q \<in> set qs"
        by (simp add: span_questions_def)
      have "Some ` set qs = question_of ` set els"
        using arg_cong [OF m, of set] by simp
      then have "\<forall>el\<in>set els. question_of el \<noteq> None"
        and "\<exists>el\<in>set els. question_of el = Some Q"
        using Q by (auto, metis (no_types, lifting) image_iff)
      with \<open>um body = Some payload\<close> els show ?thesis by blast
    qed
  qed
qed

lemma detectQuestions_source:
  assumes "Q \<in> set (detectQuestions um t)"
  shows "\<exists>pre body post payload els.
           t = pre @ OPEN @ body @ CLOSE @ post \<and> um body = Some payload \<and>
           payload ''questions'' = Some (AnySlice els) \<and>
           (\<forall>el\<in>set els. question_of el \<noteq> None) \<and> (\<exists>el\<in>set els. question_of el = Some Q)"
proof -
  from assms obtain body where
    b: "body \<in> set (questionPattern_matches t)" "Q \<in> set (span_questions um body)"
    by (auto simp: detectQuestions_eq)
  from matches_occur [OF b(1)] obtain pre post where "t = pre @ OPEN @ body @ CLOSE @ post"
    by blast
  with span_questions_source [OF b(2)] show ?thesis by blast
qed

lemma detectQuestions_layout:
  "separated ms tail \<Longrightarrow>
   detectQuestions um (layout ms tail) = concat (map (\<lambda>m. span_questions um (snd m)) ms)"
  by (simp add: detectQuestions_eq matches_layout comp_def)

lemma concat_filter_nonempty:
  "(\<And>x. x \<in> set xs \<Longrightarrow> \<not> P x \<Longrightarrow> f x = []) \<Longrightarrow>
   concat (map f (filter P xs)) = concat (map f xs)"
  by (induction xs) auto

lemma concat_single:
  fixes ms :: "(string \<times> string) list"
  assumes "\<forall>m\<in>set ms. single_question um (snd m) \<noteq> None"
  shows "concat (map (\<lambda>m. span_questions um (snd m)) ms)
           = map (\<lambda>m. the (single_question um (snd m))) ms"
  using assms by (induction ms) (auto simp: span_questions_single)

lemma matches_unterminated: "unterminated tail \<Longrightarrow> questionPattern_matches tail = []"
proof (cases "Cut tail OPEN")
  case None
  then show ?thesis by (simp add: questionPattern_matches.simps)
next
  case (Some p)
  obtain before rest where p: "p = (before, rest)" by (cases p)
  assume "unterminated tail"
  with Some p have "\<not> sublist CLOSE rest" by (simp add: unterminated_def)
  then have "Cut rest CLOSE = None" by (simp add: Cut_None CLOSE_def)
  with Some p show ?thesis by (simp add: questionPattern_matches.simps)
qed

lemma matches_apart:
  "apart ms tail \<Longrightarrow> questionPattern_matches (layout ms tail) = map snd ms"
proof (induction ms)
  case Nil
  then show ?case by (simp add: apart_def matches_unterminated)
next
  case (Cons m ms)
  obtain gap body where m: "m = (gap, body)" by (cases m)
  from Cons.prems have g: "\<not> sublist OPEN gap" and b: "\<not> sublist CLOSE body"
    and rest: "apart ms tail"
    by (simp_all add: apart_def m)
  show ?case
    using Cons.IH [OF rest]
    by (subst questionPattern_matches.simps) (simp add: m Cut_gap [OF g] Cut_body [OF b])
qed

lemma separated_apart: "separated ms tail \<Longrightarrow> apart ms tail"
proof -
  assume s: "separated ms tail"
  then have "Cut tail OPEN = None" by (simp add: separated_def Cut_None OPEN_def)
  then have "unterminated tail" by (simp add: unterminated_def)
  with s show ?thesis by (simp add: separated_def apart_def)
qed

lemma detectQuestions_apart:
  "apart ms tail \<Longrightarrow>
   detectQuestions um (layout ms tail) = concat (map (\<lambda>m. span_questions um (snd m)) ms)"
  by (simp add: detectQuestions_eq matches_apart comp_def)

lemma question_of_missing:
  "q ''question'' = None \<or> q ''header'' = None \<or> q ''options'' = None \<Longrightarrow>
   question_of (AnyMap q) = None"
  by (auto simp: question_of_def split: option.splits any.splits)

lemma no_occurrence:
  "\<not> sublist OPEN t \<Longrightarrow> \<forall>pre body post. t = pre @ OPEN @ body @ CLOSE @ post \<longrightarrow> P body"
  by (auto simp: sublist_def)

lemma bodies_differ:
  "body_multiline \<noteq> body_approach" "body_no_header \<noteq> body_approach"
  "body_no_header \<noteq> body_multiline"
  by (simp_all add: body_multiline_def body_approach_def body_no_header_def)

lemma single_approach:
  "single_question sample_decode body_approach
     = Some \<lparr>Question = ''Which approach?'', Header = ''Approach'',
             Options = [[''label'' \<mapsto> AnyString ''A''], [''label'' \<mapsto> AnyString ''B'']]\<rparr>"
  by (simp add: single_question_def sample_decode_def question_of_def question_approach_def
        option_of_def)

lemma single_multiline:
  "single_question sample_decode body_multiline
     = Some \<lparr>Question = ''Q?'', Header = ''H'', Options = []\<rparr>"
  by (simp add: single_question_def sample_decode_def question_of_def question_free_def
        option_of_def bodies_differ)

section \<open>Claims about the question detector\<close>

text \<open>
  C1. \<^verbatim>\<open>detectQuestions\<close> is a total function: it returns a sequence of Questions for
  every text. When the text contains no well-formed marker, the sequence is empty. When
  the text consists of \<open>n\<close> independent well-formed markers, each of which carries exactly
  one question, the result is the \<open>n\<close> questions of the markers in their order from left
  to right. A marker body may hold line breaks.
\<close>

theorem detectQuestions_markers:
  "((\<forall>pre body post. t = pre @ OPEN @ body @ CLOSE @ post \<longrightarrow> \<not> well_formed um body) \<longrightarrow>
      detectQuestions um t = []) \<and>
   (separated ms tail \<and> (\<forall>m\<in>set ms. single_question um (snd m) \<noteq> None) \<longrightarrow>
      detectQuestions um (layout ms tail) = map (\<lambda>m. the (single_question um (snd m))) ms \<and>
      length (detectQuestions um (layout ms tail)) = length ms)"
proof -
  have none: "detectQuestions um t = []"
    if h: "\<forall>pre body post. t = pre @ OPEN @ body @ CLOSE @ post \<longrightarrow> \<not> well_formed um body"
  proof -
    have "span_questions um body = []" if "body \<in> set (questionPattern_matches t)" for body
      using matches_occur [OF that] h span_questions_not_well_formed by blast
    then show ?thesis by (simp add: detectQuestions_eq)
  qed
  have many: "detectQuestions um (layout ms tail) = map (\<lambda>m. the (single_question um (snd m))) ms"
    if h: "separated ms tail \<and> (\<forall>m\<in>set ms. single_question um (snd m) \<noteq> None)"
    using h concat_single [of ms um] by (simp add: detectQuestions_layout)
  from none many show ?thesis by simp
qed

theorem detectQuestions_markers_witness:
  \<open>detectQuestions sample_decode ''no markers here'' = [] \<and>
   detectQuestions sample_decode
     (''some text <!--QUESTION:'' @ body_approach @ ''--> and <!--QUESTION:'' @ body_multiline
        @ ''--> more'')
     = [\<lparr>Question = ''Which approach?'', Header = ''Approach'',
         Options = [[''label'' \<mapsto> AnyString ''A''], [''label'' \<mapsto> AnyString ''B'']]\<rparr>,
        \<lparr>Question = ''Q?'', Header = ''H'', Options = []\<rparr>]\<close>
proof -
  have a: "\<forall>pre body post. ''no markers here'' = pre @ OPEN @ body @ CLOSE @ post
             \<longrightarrow> \<not> well_formed sample_decode body"
    by (rule no_occurrence) (simp add: OPEN_def sublist_Cons_right)
  have b: "separated [(''some text '', body_approach), ('' and '', body_multiline)] '' more''"
    by (simp add: separated_def OPEN_def CLOSE_def body_approach_def body_multiline_def
          sublist_Cons_right)
  have c: "\<forall>m\<in>set [(''some text '', body_approach), ('' and '', body_multiline)].
             single_question sample_decode (snd m) \<noteq> None"
    by (simp add: single_approach single_multiline)
  have l: "layout [(''some text '', body_approach), ('' and '', body_multiline)] '' more''
             = ''some text <!--QUESTION:'' @ body_approach @ ''--> and <!--QUESTION:''
                 @ body_multiline @ ''--> more''"
    by (simp add: OPEN_def CLOSE_def)
  show ?thesis
    using a b c
      detectQuestions_markers [of "''no markers here''" sample_decode
        "[(''some text '', body_approach), ('' and '', body_multiline)]" "'' more''"]
    unfolding l by (simp add: single_approach single_multiline)
qed

text \<open>
  C4, as the code has it. A marker occurrence whose body is not valid JSON contributes no
  Question, and so does one whose \<^verbatim>\<open>questions\<close> array has an element that misses a required
  field (\<^verbatim>\<open>question\<close>, \<^verbatim>\<open>header\<close> or \<^verbatim>\<open>options\<close>). The occurrences are the matches of the
  pattern: in a text whose markers are apart, every well-formed occurrence still
  contributes its Questions, in order, next to the malformed ones, also when an
  unterminated opening token follows the last marker. Every Question of the result is
  made from an element of a marker whose elements all have the required fields, so none
  is partly filled. The function has no failing branch.
\<close>

theorem malformed_markers_skipped:
  "(um body = None \<longrightarrow> span_questions um body = []) \<and>
   (q ''question'' = None \<or> q ''header'' = None \<or> q ''options'' = None \<longrightarrow>
      question_of (AnyMap q) = None) \<and>
   (um body = Some payload \<and> payload ''questions'' = Some (AnySlice els) \<and>
      el \<in> set els \<and> question_of el = None \<longrightarrow> span_questions um body = []) \<and>
   (apart ms tail \<longrightarrow>
      detectQuestions um (layout ms tail)
        = concat (map (\<lambda>m. span_questions um (snd m))
                    (filter (\<lambda>m. well_formed um (snd m)) ms))) \<and>
   (\<forall>Q\<in>set (detectQuestions um t).
      \<exists>pre b post p es.
         t = pre @ OPEN @ b @ CLOSE @ post \<and> um b = Some p \<and>
         p ''questions'' = Some (AnySlice es) \<and>
         (\<forall>e\<in>set es. question_of e \<noteq> None) \<and> (\<exists>e\<in>set es. question_of e = Some Q))"
proof -
  have a: "span_questions um body = []" if "um body = None"
    using that by (simp add: span_questions_def)
  have m: "question_of (AnyMap q) = None"
    if "q ''question'' = None \<or> q ''header'' = None \<or> q ''options'' = None"
    using that by (rule question_of_missing)
  have b: "span_questions um body = []"
    if "um body = Some payload \<and> payload ''questions'' = Some (AnySlice els) \<and>
        el \<in> set els \<and> question_of el = None"
    using that span_questions_malformed [of um body payload els el] by blast
  have c: "detectQuestions um (layout ms tail)
        = concat (map (\<lambda>m. span_questions um (snd m))
                    (filter (\<lambda>m. well_formed um (snd m)) ms))"
    if "apart ms tail"
    using detectQuestions_apart [OF that, of um]
      concat_filter_nonempty [of ms "\<lambda>m. well_formed um (snd m)" "\<lambda>m. span_questions um (snd m)"]
    by (simp add: span_questions_not_well_formed)
  have d: "\<forall>Q\<in>set (detectQuestions um t).
      \<exists>pre b post p es.
         t = pre @ OPEN @ b @ CLOSE @ post \<and> um b = Some p \<and>
         p ''questions'' = Some (AnySlice es) \<and>
         (\<forall>e\<in>set es. question_of e \<noteq> None) \<and> (\<exists>e\<in>set es. question_of e = Some Q)"
    using detectQuestions_source [of _ um t] by blast
  from a m b c d show ?thesis by blast
qed

theorem malformed_markers_skipped_witness:
  \<open>detectQuestions sample_decode
     (''<!--QUESTION:not-valid-json--> x <!--QUESTION:'' @ body_no_header
        @ ''--> y <!--QUESTION:'' @ body_approach @ ''--> z <!--QUESTION:{'')
     = [\<lparr>Question = ''Which approach?'', Header = ''Approach'',
         Options = [[''label'' \<mapsto> AnyString ''A''], [''label'' \<mapsto> AnyString ''B'']]\<rparr>] \<and>
   span_questions sample_decode ''not-valid-json'' = [] \<and>
   span_questions sample_decode body_no_header = [] \<and>
   question_of question_no_header = None \<and>
   (\<exists>pre b post p es.
      ''<!--QUESTION:not-valid-json--> x <!--QUESTION:'' @ body_no_header
        @ ''--> y <!--QUESTION:'' @ body_approach @ ''--> z <!--QUESTION:{''
        = pre @ OPEN @ b @ CLOSE @ post \<and>
      sample_decode b = Some p \<and> p ''questions'' = Some (AnySlice es) \<and>
      (\<forall>e\<in>set es. question_of e \<noteq> None) \<and>
      (\<exists>e\<in>set es. question_of e
         = Some \<lparr>Question = ''Which approach?'', Header = ''Approach'',
                 Options = [[''label'' \<mapsto> AnyString ''A''], [''label'' \<mapsto> AnyString ''B'']]\<rparr>))\<close>
proof -
  let ?ms = "[('''', ''not-valid-json''), ('' x '', body_no_header), ('' y '', body_approach)]"
  let ?tail = "'' z <!--QUESTION:{''"
  let ?T = "''<!--QUESTION:not-valid-json--> x <!--QUESTION:'' @ body_no_header
                 @ ''--> y <!--QUESTION:'' @ body_approach @ ''--> z <!--QUESTION:{''"
  let ?Q = "\<lparr>Question = ''Which approach?'', Header = ''Approach'',
             Options = [[''label'' \<mapsto> AnyString ''A''], [''label'' \<mapsto> AnyString ''B'']]\<rparr>"
  let ?nh = "[''question'' \<mapsto> AnyString ''No header'']"
  have u: "unterminated ?tail"
    by (simp add: unterminated_def OPEN_def CLOSE_def sublist_Cons_right)
  have s: "apart ?ms ?tail"
    using u
    by (simp add: apart_def OPEN_def CLOSE_def body_approach_def body_no_header_def
          sublist_Cons_right)
  have l: "layout ?ms ?tail = ?T"
    by (simp add: OPEN_def CLOSE_def)
  have n: "sample_decode ''not-valid-json'' = None"
    by (simp add: sample_decode_def body_approach_def body_multiline_def body_no_header_def)
  have k: "?nh ''question'' = None \<or> ?nh ''header'' = None \<or> ?nh ''options'' = None"
    by simp
  have h: "sample_decode body_no_header
             = Some [''questions'' \<mapsto> AnySlice [question_plain, question_no_header]] \<and>
           [''questions'' \<mapsto> AnySlice [question_plain, question_no_header]] ''questions''
             = Some (AnySlice [question_plain, question_no_header]) \<and>
           question_no_header \<in> set [question_plain, question_no_header] \<and>
           question_of question_no_header = None"
    by (simp add: sample_decode_def bodies_differ question_of_def question_no_header_def)
  have w: "\<not> well_formed sample_decode ''not-valid-json''"
          "\<not> well_formed sample_decode body_no_header"
          "well_formed sample_decode body_approach"
    by (simp_all add: well_formed_def n h)
       (simp add: sample_decode_def question_approach_def question_of_def option_of_def)
  have q: "span_questions sample_decode body_approach = [?Q]"
    by (rule span_questions_single) (rule single_approach)
  note t1 = malformed_markers_skipped [of sample_decode "''not-valid-json''" ?nh _ _ _
        ?ms ?tail ?T]
  note t2 = malformed_markers_skipped [of sample_decode body_no_header ?nh
        "[''questions'' \<mapsto> AnySlice [question_plain, question_no_header]]"
        "[question_plain, question_no_header]" question_no_header ?ms ?tail ?T]
  from t1 s have r: "detectQuestions sample_decode ?T = [?Q]"
    unfolding l by (simp add: w q)
  from t1 n have a: "span_questions sample_decode ''not-valid-json'' = []" by blast
  from t2 h have b: "span_questions sample_decode body_no_header = []" by blast
  from t1 k have "question_of (AnyMap ?nh) = None" by blast
  then have e: "question_of question_no_header = None" by (simp add: question_no_header_def)
  from t1 have "\<forall>Q\<in>set (detectQuestions sample_decode ?T).
      \<exists>pre b post p es.
         ?T = pre @ OPEN @ b @ CLOSE @ post \<and> sample_decode b = Some p \<and>
         p ''questions'' = Some (AnySlice es) \<and>
         (\<forall>e\<in>set es. question_of e \<noteq> None) \<and> (\<exists>e\<in>set es. question_of e = Some Q)"
    by blast
  then have c: "\<exists>pre b post p es.
         ?T = pre @ OPEN @ b @ CLOSE @ post \<and> sample_decode b = Some p \<and>
         p ''questions'' = Some (AnySlice es) \<and>
         (\<forall>e\<in>set es. question_of e \<noteq> None) \<and> (\<exists>e\<in>set es. question_of e = Some ?Q)"
    unfolding r by simp
  from r a b e c show ?thesis by blast
qed

text \<open>
  C4, as it is worded, has every other well-formed occurrence of the same text
  processed. The pattern matches from the first opening token to the first closing
  token behind it: when an unterminated opening token stands before a well-formed
  marker, the one match of the pattern runs from that token to the end of the marker,
  its body is not valid JSON, and the well-formed marker that the text contains
  contributes nothing.
\<close>

theorem marker_inside_match_lost:
  \<open>''<!--QUESTION:oops <!--QUESTION:'' @ body_approach @ ''-->''
     = ''<!--QUESTION:oops '' @ OPEN @ body_approach @ CLOSE @ '''' \<and>
   well_formed sample_decode body_approach \<and>
   questionPattern_matches (''<!--QUESTION:oops <!--QUESTION:'' @ body_approach @ ''-->'')
     = [''oops <!--QUESTION:'' @ body_approach] \<and>
   detectQuestions sample_decode (''<!--QUESTION:oops <!--QUESTION:'' @ body_approach @ ''-->'')
     = []\<close>
proof -
  let ?b = "''oops <!--QUESTION:'' @ body_approach"
  let ?T = "''<!--QUESTION:oops <!--QUESTION:'' @ body_approach @ ''-->''"
  have d: "?T = ''<!--QUESTION:oops '' @ OPEN @ body_approach @ CLOSE @ ''''"
    by (simp add: OPEN_def CLOSE_def)
  have w: "well_formed sample_decode body_approach"
    by (simp add: well_formed_def sample_decode_def question_approach_def question_of_def
          option_of_def)
  have s: "apart [('''', ?b)] ''''"
    by (simp add: apart_def unterminated_def OPEN_def CLOSE_def body_approach_def
          sublist_Cons_right)
  have l: "layout [('''', ?b)] '''' = ?T"
    by (simp add: OPEN_def CLOSE_def)
  have m: "questionPattern_matches ?T = [?b]"
    using matches_apart [OF s] unfolding l by simp
  have n: "sample_decode ?b = None"
    by (simp add: sample_decode_def body_approach_def body_multiline_def body_no_header_def)
  have e: "detectQuestions sample_decode ?T = []"
    using detectQuestions_apart [OF s, of sample_decode] n unfolding l
    by (simp add: span_questions_def)
  from d w m e show ?thesis by blast
qed

end
